theory Spec2Isabelle
  imports Main "HOL-Library.Multiset" "HOL-Library.Sublist"
begin

section \<open>Python values used by seller.py and market.py\<close>

text \<open>
  The two scripts read spreadsheet rows as dictionaries and talk to two marketplaces.
  A Python \<open>str\<close> is modelled as a \<open>string\<close>; text outside ASCII is held as its UTF-8
  bytes. Every string operation of the scripts (\<open>==\<close>, \<open>in\<close>, \<open>split(".")\<close>, the class
  \<open>[^0-9]\<close>) looks at ASCII characters only, so bytes and code points agree on them.
  The one exception is \<open>int\<close>, which also reads the blanks and decimal digits of
  Unicode: there the bytes are decoded. Floating-point cells are left out, and a
  whole-number cell is taken to be a spreadsheet number, far shorter than the limit on the
  conversion between integers and strings.
\<close>

datatype error =
  ValueError | TypeError | AttributeError | HTTPError | ReadTimeout | ConnectionError

text \<open>A spreadsheet cell as \<open>watch.get(key)\<close> returns it: text, a whole number, or
  \<open>None\<close> when the key is absent.\<close>

datatype pyval = PStr string | PInt int | PNone

definition digit_char :: "nat \<Rightarrow> char" where
  "digit_char d = char_of (48 + d)"

function show_nat :: "nat \<Rightarrow> string" where
  "show_nat n = (if n < 10 then [digit_char n] else show_nat (n div 10) @ [digit_char (n mod 10)])"
  by pat_completeness auto
termination
  by (relation "measure id") auto

declare show_nat.simps [simp del]

definition show_int :: "int \<Rightarrow> string" where
  "show_int i = (if i < 0 then CHR ''-'' # show_nat (nat (- i)) else show_nat (nat i))"

text \<open>\<open>str(v)\<close>.\<close>

fun py_str :: "pyval \<Rightarrow> string" where
  "py_str (PStr s) = s"
| "py_str (PInt i) = show_int i"
| "py_str PNone = ''None''"

definition is_digit :: "char \<Rightarrow> bool" where
  "is_digit c = (48 \<le> (of_char c :: nat) \<and> (of_char c :: nat) \<le> 57)"

definition digit_val :: "char \<Rightarrow> nat" where
  "digit_val c = of_char c - 48"

text \<open>The blanks that \<open>int\<close> skips at both ends of a literal: tab, line feed,
  vertical tab, form feed, carriage return and space.\<close>

definition is_space :: "char \<Rightarrow> bool" where
  "is_space c = ((9 \<le> (of_char c :: nat) \<and> (of_char c :: nat) \<le> 13) \<or> (of_char c :: nat) = 32)"

definition py_strip :: "string \<Rightarrow> string" where
  "py_strip s = rev (dropWhile is_space (rev (dropWhile is_space s)))"

text \<open>The digits of a literal, read after a first digit: single underscores may stand
  between two digits.\<close>

fun digits_value :: "string \<Rightarrow> nat \<Rightarrow> nat option" where
  "digits_value [] acc = Some acc"
| "digits_value (c # cs) acc =
     (if is_digit c then digits_value cs (10 * acc + digit_val c)
      else if c = CHR ''_'' then
        (case cs of
           [] \<Rightarrow> None
         | d # ds \<Rightarrow> if is_digit d then digits_value ds (10 * acc + digit_val d) else None)
      else None)"

definition unsigned_value :: "string \<Rightarrow> nat option" where
  "unsigned_value s =
     (case s of
        [] \<Rightarrow> None
      | c # cs \<Rightarrow> if is_digit c then digits_value cs (digit_val c) else None)"

text \<open>\<open>int(s)\<close> for a string, base 10, as CPython computes it. A string with a character
  outside ASCII is first rewritten: every character from code point 127 on becomes a space
  when it is a Unicode blank, the ASCII digit of its value when it is a Unicode decimal
  digit, and \<open>?\<close> otherwise. The literal is then read by the ASCII rules: blanks at both
  ends are skipped, a sign may come first, the digits may be separated by single
  underscores, and a literal of more digits than the limit on conversions is refused.\<close>

definition is_ascii :: "char \<Rightarrow> bool" where
  "is_ascii c = ((of_char c :: nat) < 128)"

definition continuation :: "char \<Rightarrow> bool" where
  "continuation c = (128 \<le> (of_char c :: nat) \<and> (of_char c :: nat) < 192)"

definition low_bits :: "char \<Rightarrow> nat" where
  "low_bits c = of_char c - 128"

text \<open>The code points of a text held as UTF-8 bytes. Bytes that encode no code point give
  the replacement character U+FFFD; they cannot occur in a Python string.\<close>

fun utf8_decode :: "string \<Rightarrow> nat list" where
  "utf8_decode [] = []"
| "utf8_decode (c # cs) =
     (if is_ascii c then of_char c # utf8_decode cs
      else if 194 \<le> (of_char c :: nat) \<and> (of_char c :: nat) < 224 then
        (case cs of
           c1 # r \<Rightarrow>
             if continuation c1
             then ((of_char c - 192) * 64 + low_bits c1) # utf8_decode r
             else 65533 # utf8_decode cs
         | _ \<Rightarrow> 65533 # utf8_decode cs)
      else if 224 \<le> (of_char c :: nat) \<and> (of_char c :: nat) < 240 then
        (case cs of
           c1 # c2 # r \<Rightarrow>
             if continuation c1 \<and> continuation c2 \<and>
                2048 \<le> (of_char c - 224) * 4096 + low_bits c1 * 64 + low_bits c2
             then ((of_char c - 224) * 4096 + low_bits c1 * 64 + low_bits c2) # utf8_decode r
             else 65533 # utf8_decode cs
         | _ \<Rightarrow> 65533 # utf8_decode cs)
      else if 240 \<le> (of_char c :: nat) \<and> (of_char c :: nat) < 245 then
        (case cs of
           c1 # c2 # c3 # r \<Rightarrow>
             if continuation c1 \<and> continuation c2 \<and> continuation c3 \<and>
                65536 \<le> (of_char c - 240) * 262144 + low_bits c1 * 4096 + low_bits c2 * 64
                           + low_bits c3 \<and>
                (of_char c - 240) * 262144 + low_bits c1 * 4096 + low_bits c2 * 64
                  + low_bits c3 < 1114112
             then ((of_char c - 240) * 262144 + low_bits c1 * 4096 + low_bits c2 * 64
                     + low_bits c3) # utf8_decode r
             else 65533 # utf8_decode cs
         | _ \<Rightarrow> 65533 # utf8_decode cs)
      else 65533 # utf8_decode cs)"

text \<open>The blanks of Unicode from code point 127 on (\<open>str.isspace\<close>), and the code points of
  the digit zero of every decimal digit system of Unicode 14.0 outside ASCII, each followed
  by its digits one to nine (\<open>unicodedata.decimal\<close>).\<close>

definition unicode_blanks :: "nat list" where
  "unicode_blanks =
     [133, 160, 5760, 8192, 8193, 8194, 8195, 8196, 8197, 8198, 8199, 8200, 8201, 8202,
      8232, 8233, 8239, 8287, 12288]"

definition decimal_zeros :: "nat list" where
  "decimal_zeros =
     [1632, 1776, 1984, 2406, 2534, 2662, 2790, 2918, 3046, 3174, 3302, 3430, 3558, 3664,
      3792, 3872, 4160, 4240, 6112, 6160, 6470, 6608, 6784, 6800, 6992, 7088, 7232, 7248,
      42528, 43216, 43264, 43472, 43504, 43600, 44016, 65296, 66720, 68912, 69734, 69872,
      69942, 70096, 70384, 70736, 70864, 71248, 71360, 71472, 71904, 72016, 72784, 73040,
      73120, 92768, 92864, 93008, 120782, 120792, 120802, 120812, 120822, 123200, 123632,
      125264, 130032]"

definition unicode_decimal :: "nat \<Rightarrow> nat option" where
  "unicode_decimal cp =
     (case find (\<lambda>z. z \<le> cp \<and> cp < z + 10) decimal_zeros of
        None \<Rightarrow> None
      | Some z \<Rightarrow> Some (cp - z))"

definition to_ascii :: "nat \<Rightarrow> char" where
  "to_ascii cp =
     (if cp < 127 then char_of cp
      else if cp \<in> set unicode_blanks then CHR '' ''
      else (case unicode_decimal cp of Some d \<Rightarrow> digit_char d | None \<Rightarrow> CHR ''?''))"

text \<open>The default of \<open>sys.get_int_max_str_digits()\<close>; the scripts do not change it.\<close>

definition int_max_str_digits :: nat where
  "int_max_str_digits = 4300"

definition ascii_int :: "string \<Rightarrow> error + int" where
  "ascii_int s =
     (if int_max_str_digits < length (filter is_digit (py_strip s)) then Inl ValueError
      else
        (case py_strip s of
           [] \<Rightarrow> Inl ValueError
         | c # cs \<Rightarrow>
             if c = CHR ''+'' then
               (case unsigned_value cs of None \<Rightarrow> Inl ValueError | Some n \<Rightarrow> Inr (int n))
             else if c = CHR ''-'' then
               (case unsigned_value cs of None \<Rightarrow> Inl ValueError | Some n \<Rightarrow> Inr (- int n))
             else
               (case unsigned_value (c # cs) of None \<Rightarrow> Inl ValueError | Some n \<Rightarrow> Inr (int n))))"

definition int_of_string :: "string \<Rightarrow> error + int" where
  "int_of_string s =
     (if list_all is_ascii s then ascii_int s else ascii_int (map to_ascii (utf8_decode s)))"

text \<open>\<open>int(v)\<close>.\<close>

fun py_int :: "pyval \<Rightarrow> error + int" where
  "py_int (PStr s) = int_of_string s"
| "py_int (PInt i) = Inr i"
| "py_int PNone = Inl TypeError"

section \<open>The canonical feed\<close>

text \<open>One row of the dealer's spreadsheet, a dictionary in the source. The three keys
  the scripts read are Cyrillic words; the fields carry their transliterations:
  \<open>kod\<close> (code), \<open>kolichestvo\<close> (quantity), \<open>tsena\<close> (price).\<close>

record watch =
  kod :: pyval
  kolichestvo :: pyval
  tsena :: pyval

text \<open>The quantity policy, written inline in both \<open>create_stocks\<close>
  (seller.py 218-224, market.py 175-181).\<close>

definition stock_count :: "watch \<Rightarrow> error + int" where
  "stock_count w =
     (let count = py_str (kolichestvo w) in
      if count = ''>10'' then Inr 100
      else if count = ''1'' then Inr 0
      else py_int (kolichestvo w))"

text \<open>seller.py \<open>price_conversion\<close>: \<open>re.sub("[^0-9]", "", price.split(".")[0])\<close>.
  Applied to anything but a string, \<open>price.split\<close> raises AttributeError.\<close>

definition price_conversion_str :: "string \<Rightarrow> string" where
  "price_conversion_str price = filter is_digit (takeWhile (\<lambda>c. c \<noteq> CHR ''.'') price)"

fun price_conversion :: "pyval \<Rightarrow> error + string" where
  "price_conversion (PStr s) = Inr (price_conversion_str s)"
| "price_conversion _ = Inl AttributeError"


section \<open>Chunker\<close>

text \<open>\<open>range(i, stop, step)\<close> for a positive step.\<close>

function py_range :: "nat \<Rightarrow> nat \<Rightarrow> nat \<Rightarrow> nat list" where
  "py_range i stop step =
     (if step = 0 \<or> stop \<le> i then [] else i # py_range (i + step) stop step)"
  by pat_completeness auto
termination
  by (relation "measure (\<lambda>(i, stop, step). stop - i)") auto

declare py_range.simps [simp del]

text \<open>seller.py \<open>divide\<close>, a generator; every caller consumes it at once with
  \<open>list(divide(lst, n))\<close>, which is what this function returns. \<open>range\<close> raises
  ValueError for a zero step and is empty for a negative step from 0 upwards;
  the slice \<open>lst[i : i + n]\<close> with \<open>0 \<le> i\<close> and \<open>0 < n\<close> is \<open>take n (drop i lst)\<close>.\<close>

definition divide :: "'a list \<Rightarrow> int \<Rightarrow> error + 'a list list" where
  "divide lst n =
     (if n = 0 then Inl ValueError
      else if n < 0 then Inr []
      else Inr (map (\<lambda>i. take (nat n) (drop i lst)) (py_range 0 (length lst) (nat n))))"

section \<open>Stock and price reconciliation for Ozon (seller.py)\<close>

record stock_entry =
  offer_id :: string
  stock :: int

text \<open>The first loop of \<open>create_stocks\<close>. \<open>offer_ids\<close> is the caller's list: the function
  removes from it in place, so the list is threaded through and returned, also when
  \<open>int\<close> raises half way.\<close>

fun match_stocks ::
  "watch list \<Rightarrow> stock_entry list \<Rightarrow> string list \<Rightarrow> (error + stock_entry list) \<times> string list" where
  "match_stocks [] stocks offer_ids = (Inr stocks, offer_ids)"
| "match_stocks (w # ws) stocks offer_ids =
     (if py_str (kod w) \<in> set offer_ids then
        (case stock_count w of
           Inl e \<Rightarrow> (Inl e, offer_ids)
         | Inr n \<Rightarrow>
             match_stocks ws
               (stocks @ [\<lparr>offer_id = py_str (kod w), stock = n\<rparr>])
               (remove1 (py_str (kod w)) offer_ids))
      else match_stocks ws stocks offer_ids)"

text \<open>seller.py \<open>create_stocks\<close>: the result, and the caller's \<open>offer_ids\<close> after the call.\<close>

definition create_stocks ::
  "watch list \<Rightarrow> string list \<Rightarrow> (error + stock_entry list) \<times> string list" where
  "create_stocks watch_remnants offer_ids =
     (case match_stocks watch_remnants [] offer_ids of
        (Inl e, offer_ids') \<Rightarrow> (Inl e, offer_ids')
      | (Inr stocks, offer_ids') \<Rightarrow>
          (Inr (stocks @ map (\<lambda>i. \<lparr>offer_id = i, stock = 0\<rparr>) offer_ids'), offer_ids'))"

record price_entry =
  auto_action_enabled :: string
  currency_code :: string
  price_offer_id :: string
  old_price :: string
  price :: string

fun match_prices :: "watch list \<Rightarrow> price_entry list \<Rightarrow> string list \<Rightarrow> error + price_entry list" where
  "match_prices [] prices offer_ids = Inr prices"
| "match_prices (w # ws) prices offer_ids =
     (if py_str (kod w) \<in> set offer_ids then
        (case price_conversion (tsena w) of
           Inl e \<Rightarrow> Inl e
         | Inr p \<Rightarrow>
             match_prices ws
               (prices @ [\<lparr>auto_action_enabled = ''UNKNOWN'', currency_code = ''RUB'',
                           price_offer_id = py_str (kod w), old_price = ''0'', price = p\<rparr>])
               offer_ids)
      else match_prices ws prices offer_ids)"

text \<open>seller.py \<open>create_prices\<close>; it only reads \<open>offer_ids\<close>.\<close>

definition create_prices :: "watch list \<Rightarrow> string list \<Rightarrow> error + price_entry list" where
  "create_prices watch_remnants offer_ids = match_prices watch_remnants [] offer_ids"

section \<open>Stock and price reconciliation for Yandex Market (market.py)\<close>

record stock_item =
  item_count :: int
  item_type :: string
  updatedAt :: string

record market_stock =
  sku :: string
  warehouseId :: string
  stock_items :: "stock_item list"

text \<open>\<open>date\<close> is the clock reading taken once at the start of \<open>create_stocks\<close>.\<close>

fun market_match_stocks ::
  "string \<Rightarrow> string \<Rightarrow> watch list \<Rightarrow> market_stock list \<Rightarrow> string list
     \<Rightarrow> (error + market_stock list) \<times> string list" where
  "market_match_stocks warehouse_id date [] stocks offer_ids = (Inr stocks, offer_ids)"
| "market_match_stocks warehouse_id date (w # ws) stocks offer_ids =
     (if py_str (kod w) \<in> set offer_ids then
        (case stock_count w of
           Inl e \<Rightarrow> (Inl e, offer_ids)
         | Inr n \<Rightarrow>
             market_match_stocks warehouse_id date ws
               (stocks @ [\<lparr>sku = py_str (kod w), warehouseId = warehouse_id,
                           stock_items = [\<lparr>item_count = n, item_type = ''FIT'', updatedAt = date\<rparr>]\<rparr>])
               (remove1 (py_str (kod w)) offer_ids))
      else market_match_stocks warehouse_id date ws stocks offer_ids)"

definition market_create_stocks ::
  "string \<Rightarrow> watch list \<Rightarrow> string list \<Rightarrow> string \<Rightarrow> (error + market_stock list) \<times> string list" where
  "market_create_stocks date watch_remnants offer_ids warehouse_id =
     (case market_match_stocks warehouse_id date watch_remnants [] offer_ids of
        (Inl e, offer_ids') \<Rightarrow> (Inl e, offer_ids')
      | (Inr stocks, offer_ids') \<Rightarrow>
          (Inr (stocks @
                map (\<lambda>i. \<lparr>sku = i, warehouseId = warehouse_id,
                           stock_items = [\<lparr>item_count = 0, item_type = ''FIT'', updatedAt = date\<rparr>]\<rparr>)
                  offer_ids'),
           offer_ids'))"

record price_value =
  price_amount :: int
  currencyId :: string

record market_price =
  price_id :: string
  price_of :: price_value

text \<open>market.py reads the price as \<open>int(price_conversion(...))\<close>.\<close>

definition market_price_value :: "pyval \<Rightarrow> error + int" where
  "market_price_value v =
     (case price_conversion v of Inl e \<Rightarrow> Inl e | Inr digits \<Rightarrow> int_of_string digits)"

fun market_match_prices ::
  "watch list \<Rightarrow> market_price list \<Rightarrow> string list \<Rightarrow> error + market_price list" where
  "market_match_prices [] prices offer_ids = Inr prices"
| "market_match_prices (w # ws) prices offer_ids =
     (if py_str (kod w) \<in> set offer_ids then
        (case market_price_value (tsena w) of
           Inl e \<Rightarrow> Inl e
         | Inr v \<Rightarrow>
             market_match_prices ws
               (prices @ [\<lparr>price_id = py_str (kod w),
                           price_of = \<lparr>price_amount = v, currencyId = ''RUR''\<rparr>\<rparr>])
               offer_ids)
      else market_match_prices ws prices offer_ids)"

definition market_create_prices :: "watch list \<Rightarrow> string list \<Rightarrow> error + market_price list" where
  "market_create_prices watch_remnants offer_ids = market_match_prices watch_remnants [] offer_ids"

section \<open>Requests to the marketplaces\<close>

text \<open>
  The scripts act on the world only through HTTP requests. A run is modelled by the list
  of requests it has issued so far, kept in order; each request function appends its
  request and takes its answer from the marketplace, a function of the requests issued
  before and of the request itself. An answer is a transport error (what
  \<open>requests\<close> or \<open>raise_for_status\<close> raises) or the decoded body, taken to be well formed:
  a product page of Ozon holds its items, total and last id, a mapping page of Yandex
  Market its entries and its paging object, and every offer id is a string. The
  credentials are the same in every request of a run and are left out; the campaign of
  Yandex Market is kept. The download of the feed is no request to a marketplace: its
  result is a parameter. A computation that does not return is \<open>None\<close>.
\<close>

record product =
  product_offer_id :: string

record product_page =
  items :: "product list"
  total :: int
  last_id :: string

datatype ozon_request =
  ProductList string
| ImportStocks "stock_entry list"
| ImportPrices "price_entry list"

record ozon =
  product_list_answer :: "ozon_request list \<Rightarrow> string \<Rightarrow> error + product_page"
  import_stocks_answer :: "ozon_request list \<Rightarrow> stock_entry list \<Rightarrow> error + unit"
  import_prices_answer :: "ozon_request list \<Rightarrow> price_entry list \<Rightarrow> error + unit"

type_synonym ('r, 'a) run = "((error + 'a) \<times> 'r list) option"

definition get_product_list ::
  "ozon \<Rightarrow> string \<Rightarrow> ozon_request list \<Rightarrow> (error + product_page) \<times> ozon_request list" where
  "get_product_list oz lastid reqs = (product_list_answer oz reqs lastid, reqs @ [ProductList lastid])"

definition update_stocks ::
  "ozon \<Rightarrow> stock_entry list \<Rightarrow> ozon_request list \<Rightarrow> (error + unit) \<times> ozon_request list" where
  "update_stocks oz stocks reqs = (import_stocks_answer oz reqs stocks, reqs @ [ImportStocks stocks])"

definition update_price ::
  "ozon \<Rightarrow> price_entry list \<Rightarrow> ozon_request list \<Rightarrow> (error + unit) \<times> ozon_request list" where
  "update_price oz prices reqs = (import_prices_answer oz reqs prices, reqs @ [ImportPrices prices])"

text \<open>The \<open>while True\<close> loop of seller.py \<open>get_offer_ids\<close>.\<close>

partial_function (option) fetch_products ::
  "ozon \<Rightarrow> string \<Rightarrow> product list \<Rightarrow> ozon_request list \<Rightarrow> (ozon_request, product list) run" where
  "fetch_products oz lastid product_list reqs =
     (case get_product_list oz lastid reqs of
        (Inl e, reqs') \<Rightarrow> Some (Inl e, reqs')
      | (Inr some_prod, reqs') \<Rightarrow>
          if total some_prod = int (length (product_list @ items some_prod))
          then Some (Inr (product_list @ items some_prod), reqs')
          else fetch_products oz (last_id some_prod) (product_list @ items some_prod) reqs')"

definition get_offer_ids :: "ozon \<Rightarrow> ozon_request list \<Rightarrow> (ozon_request, string list) run" where
  "get_offer_ids oz reqs =
     (case fetch_products oz '''' [] reqs of
        None \<Rightarrow> None
      | Some (Inl e, reqs') \<Rightarrow> Some (Inl e, reqs')
      | Some (Inr product_list, reqs') \<Rightarrow> Some (Inr (map product_offer_id product_list), reqs'))"

text \<open>\<open>for chunk in chunks: send(chunk)\<close>: the first failing request ends the loop.\<close>

fun for_each ::
  "('b \<Rightarrow> 'r list \<Rightarrow> (error + unit) \<times> 'r list) \<Rightarrow> 'b list \<Rightarrow> 'r list \<Rightarrow> (error + unit) \<times> 'r list" where
  "for_each send [] reqs = (Inr (), reqs)"
| "for_each send (chunk # chunks) reqs =
     (case send chunk reqs of
        (Inl e, reqs') \<Rightarrow> (Inl e, reqs')
      | (Inr u, reqs') \<Rightarrow> for_each send chunks reqs')"

text \<open>\<open>for chunk in list(divide(entries, n)): send(chunk)\<close>.\<close>

definition dispatch ::
  "('b list \<Rightarrow> 'r list \<Rightarrow> (error + unit) \<times> 'r list) \<Rightarrow> 'b list \<Rightarrow> int \<Rightarrow> 'r list
     \<Rightarrow> (error + unit) \<times> 'r list" where
  "dispatch send entries n reqs =
     (case divide entries n of
        Inl e \<Rightarrow> (Inl e, reqs)
      | Inr chunks \<Rightarrow> for_each send chunks reqs)"

text \<open>What \<open>main\<close> prints in its \<open>except\<close> clauses.\<close>

datatype message = Timeout_message | Connection_message | ERROR_2 error

fun handler :: "error \<Rightarrow> message" where
  "handler ReadTimeout = Timeout_message"
| "handler ConnectionError = Connection_message"
| "handler e = ERROR_2 e"

text \<open>The \<open>try\<close> block of seller.py \<open>main\<close>; \<open>download\<close> is what \<open>download_stock()\<close> gives.
  The list \<open>offer_ids\<close> that \<open>create_stocks\<close> has changed is the one \<open>create_prices\<close> reads.\<close>

definition main_try ::
  "ozon \<Rightarrow> error + watch list \<Rightarrow> (ozon_request, unit) run" where
  "main_try oz download =
     (case get_offer_ids oz [] of
        None \<Rightarrow> None
      | Some (Inl e, reqs) \<Rightarrow> Some (Inl e, reqs)
      | Some (Inr offer_ids, reqs) \<Rightarrow>
          (case download of
             Inl e \<Rightarrow> Some (Inl e, reqs)
           | Inr watch_remnants \<Rightarrow>
               (case create_stocks watch_remnants offer_ids of
                  (Inl e, offer_ids') \<Rightarrow> Some (Inl e, reqs)
                | (Inr stocks, offer_ids') \<Rightarrow>
                    (case dispatch (update_stocks oz) stocks 100 reqs of
                       (Inl e, reqs') \<Rightarrow> Some (Inl e, reqs')
                     | (Inr u, reqs') \<Rightarrow>
                         (case create_prices watch_remnants offer_ids' of
                            Inl e \<Rightarrow> Some (Inl e, reqs')
                          | Inr prices \<Rightarrow> Some (dispatch (update_price oz) prices 900 reqs'))))))"

text \<open>seller.py \<open>main\<close>: the message printed, if any, and the requests issued.\<close>

definition main :: "ozon \<Rightarrow> error + watch list \<Rightarrow> (message option \<times> ozon_request list) option" where
  "main oz download =
     (case main_try oz download of
        None \<Rightarrow> None
      | Some (Inl e, reqs) \<Rightarrow> Some (Some (handler e), reqs)
      | Some (Inr u, reqs) \<Rightarrow> Some (None, reqs))"

section \<open>Requests of market.py\<close>

record mapping_entry =
  shopSku :: string

record mapping_page =
  offerMappingEntries :: "mapping_entry list"
  nextPageToken :: "string option"

datatype market_request =
  OfferMappingEntries string string
| PutStocks string "market_stock list"
| PostPrices string "market_price list"

record market =
  offer_mapping_answer :: "market_request list \<Rightarrow> string \<Rightarrow> string \<Rightarrow> error + mapping_page"
  put_stocks_answer :: "market_request list \<Rightarrow> string \<Rightarrow> market_stock list \<Rightarrow> error + unit"
  post_prices_answer :: "market_request list \<Rightarrow> string \<Rightarrow> market_price list \<Rightarrow> error + unit"

definition market_get_product_list ::
  "market \<Rightarrow> string \<Rightarrow> string \<Rightarrow> market_request list
     \<Rightarrow> (error + mapping_page) \<times> market_request list" where
  "market_get_product_list mk page campaign_id reqs =
     (offer_mapping_answer mk reqs campaign_id page, reqs @ [OfferMappingEntries campaign_id page])"

definition market_update_stocks ::
  "market \<Rightarrow> string \<Rightarrow> market_stock list \<Rightarrow> market_request list
     \<Rightarrow> (error + unit) \<times> market_request list" where
  "market_update_stocks mk campaign_id stocks reqs =
     (put_stocks_answer mk reqs campaign_id stocks, reqs @ [PutStocks campaign_id stocks])"

definition market_update_price ::
  "market \<Rightarrow> string \<Rightarrow> market_price list \<Rightarrow> market_request list
     \<Rightarrow> (error + unit) \<times> market_request list" where
  "market_update_price mk campaign_id prices reqs =
     (post_prices_answer mk reqs campaign_id prices, reqs @ [PostPrices campaign_id prices])"

text \<open>The \<open>while True\<close> loop of market.py \<open>get_offer_ids\<close>: \<open>not page\<close> holds for a
  missing token and for the empty string.\<close>

partial_function (option) fetch_entries ::
  "market \<Rightarrow> string \<Rightarrow> string \<Rightarrow> mapping_entry list \<Rightarrow> market_request list
     \<Rightarrow> (market_request, mapping_entry list) run" where
  "fetch_entries mk campaign_id page product_list reqs =
     (case market_get_product_list mk page campaign_id reqs of
        (Inl e, reqs') \<Rightarrow> Some (Inl e, reqs')
      | (Inr some_prod, reqs') \<Rightarrow>
          (case nextPageToken some_prod of
             None \<Rightarrow> Some (Inr (product_list @ offerMappingEntries some_prod), reqs')
           | Some page' \<Rightarrow>
               if page' = []
               then Some (Inr (product_list @ offerMappingEntries some_prod), reqs')
               else fetch_entries mk campaign_id page'
                      (product_list @ offerMappingEntries some_prod) reqs'))"

definition market_get_offer_ids ::
  "market \<Rightarrow> string \<Rightarrow> market_request list \<Rightarrow> (market_request, string list) run" where
  "market_get_offer_ids mk campaign_id reqs =
     (case fetch_entries mk campaign_id [] [] reqs of
        None \<Rightarrow> None
      | Some (Inl e, reqs') \<Rightarrow> Some (Inl e, reqs')
      | Some (Inr product_list, reqs') \<Rightarrow> Some (Inr (map shopSku product_list), reqs'))"

text \<open>The body of market.py \<open>upload_prices\<close>.\<close>

definition upload_prices_body ::
  "market \<Rightarrow> watch list \<Rightarrow> string \<Rightarrow> market_request list \<Rightarrow> (market_request, market_price list) run" where
  "upload_prices_body mk watch_remnants campaign_id reqs =
     (case market_get_offer_ids mk campaign_id reqs of
        None \<Rightarrow> None
      | Some (Inl e, reqs') \<Rightarrow> Some (Inl e, reqs')
      | Some (Inr offer_ids, reqs') \<Rightarrow>
          (case market_create_prices watch_remnants offer_ids of
             Inl e \<Rightarrow> Some (Inl e, reqs')
           | Inr prices \<Rightarrow>
               (case dispatch (market_update_price mk campaign_id) prices 500 reqs' of
                  (Inl e, reqs'') \<Rightarrow> Some (Inl e, reqs'')
                | (Inr u, reqs'') \<Rightarrow> Some (Inr prices, reqs''))))"

text \<open>\<open>upload_prices\<close> is declared \<open>async def\<close>: a call runs none of the body and returns a
  coroutine object, which holds the body until something awaits it.\<close>

datatype 'a coroutine = Coroutine 'a

definition upload_prices ::
  "market \<Rightarrow> watch list \<Rightarrow> string
     \<Rightarrow> (market_request list \<Rightarrow> (market_request, market_price list) run) coroutine" where
  "upload_prices mk watch_remnants campaign_id =
     Coroutine (upload_prices_body mk watch_remnants campaign_id)"

record settings =
  campaign_fbs_id :: string
  campaign_dbs_id :: string
  warehouse_fbs_id :: string
  warehouse_dbs_id :: string

text \<open>The \<open>try\<close> block of market.py \<open>main\<close>. \<open>date_fbs\<close> and \<open>date_dbs\<close> are the two clock
  readings of the two calls of \<open>create_stocks\<close>. Both calls of \<open>upload_prices\<close> are
  statements of their own: the coroutine object is dropped, nothing awaits it.\<close>

definition market_main_try ::
  "market \<Rightarrow> settings \<Rightarrow> string \<Rightarrow> string \<Rightarrow> watch list \<Rightarrow> (market_request, unit) run" where
  "market_main_try mk env date_fbs date_dbs watch_remnants =
     (case market_get_offer_ids mk (campaign_fbs_id env) [] of
        None \<Rightarrow> None
      | Some (Inl e, reqs1) \<Rightarrow> Some (Inl e, reqs1)
      | Some (Inr offer_ids, reqs1) \<Rightarrow>
     (case market_create_stocks date_fbs watch_remnants offer_ids (warehouse_fbs_id env) of
        (Inl e, offer_ids') \<Rightarrow> Some (Inl e, reqs1)
      | (Inr stocks, offer_ids') \<Rightarrow>
     (case dispatch (market_update_stocks mk (campaign_fbs_id env)) stocks 2000 reqs1 of
        (Inl e, reqs2) \<Rightarrow> Some (Inl e, reqs2)
      | (Inr u, reqs2) \<Rightarrow>
     (case upload_prices mk watch_remnants (campaign_fbs_id env) of
        Coroutine dropped_fbs \<Rightarrow>
     (case market_get_offer_ids mk (campaign_dbs_id env) reqs2 of
        None \<Rightarrow> None
      | Some (Inl e, reqs3) \<Rightarrow> Some (Inl e, reqs3)
      | Some (Inr offer_ids_dbs, reqs3) \<Rightarrow>
     (case market_create_stocks date_dbs watch_remnants offer_ids_dbs (warehouse_dbs_id env) of
        (Inl e, offer_ids_dbs') \<Rightarrow> Some (Inl e, reqs3)
      | (Inr stocks_dbs, offer_ids_dbs') \<Rightarrow>
     (case dispatch (market_update_stocks mk (campaign_dbs_id env)) stocks_dbs 2000 reqs3 of
        (Inl e, reqs4) \<Rightarrow> Some (Inl e, reqs4)
      | (Inr u, reqs4) \<Rightarrow>
     (case upload_prices mk watch_remnants (campaign_dbs_id env) of
        Coroutine dropped_dbs \<Rightarrow> Some (Inr (), reqs4)))))))))"

text \<open>market.py \<open>main\<close>. \<open>download_stock()\<close> is called before the \<open>try\<close>: its error leaves
  \<open>main\<close> uncaught. Otherwise the result is the message printed, if any.\<close>

definition market_main ::
  "market \<Rightarrow> settings \<Rightarrow> string \<Rightarrow> string \<Rightarrow> error + watch list
     \<Rightarrow> ((error + message option) \<times> market_request list) option" where
  "market_main mk env date_fbs date_dbs download =
     (case download of
        Inl e \<Rightarrow> Some (Inl e, [])
      | Inr watch_remnants \<Rightarrow>
          (case market_main_try mk env date_fbs date_dbs watch_remnants of
             None \<Rightarrow> None
           | Some (Inl e, reqs) \<Rightarrow> Some (Inr (Some (handler e)), reqs)
           | Some (Inr u, reqs) \<Rightarrow> Some (Inr None, reqs)))"

text \<open>The orchestrator as the specification describes it, for comparison: the same steps
  as plain sequential calls, so that each price upload runs to completion where it is
  called.\<close>

definition sequential_main_try ::
  "market \<Rightarrow> settings \<Rightarrow> string \<Rightarrow> string \<Rightarrow> watch list \<Rightarrow> (market_request, unit) run" where
  "sequential_main_try mk env date_fbs date_dbs watch_remnants =
     (case market_get_offer_ids mk (campaign_fbs_id env) [] of
        None \<Rightarrow> None
      | Some (Inl e, reqs1) \<Rightarrow> Some (Inl e, reqs1)
      | Some (Inr offer_ids, reqs1) \<Rightarrow>
     (case market_create_stocks date_fbs watch_remnants offer_ids (warehouse_fbs_id env) of
        (Inl e, offer_ids') \<Rightarrow> Some (Inl e, reqs1)
      | (Inr stocks, offer_ids') \<Rightarrow>
     (case dispatch (market_update_stocks mk (campaign_fbs_id env)) stocks 2000 reqs1 of
        (Inl e, reqs2) \<Rightarrow> Some (Inl e, reqs2)
      | (Inr u, reqs2) \<Rightarrow>
     (case upload_prices_body mk watch_remnants (campaign_fbs_id env) reqs2 of
        None \<Rightarrow> None
      | Some (Inl e, reqs3) \<Rightarrow> Some (Inl e, reqs3)
      | Some (Inr prices, reqs3) \<Rightarrow>
     (case market_get_offer_ids mk (campaign_dbs_id env) reqs3 of
        None \<Rightarrow> None
      | Some (Inl e, reqs4) \<Rightarrow> Some (Inl e, reqs4)
      | Some (Inr offer_ids_dbs, reqs4) \<Rightarrow>
     (case market_create_stocks date_dbs watch_remnants offer_ids_dbs (warehouse_dbs_id env) of
        (Inl e, offer_ids_dbs') \<Rightarrow> Some (Inl e, reqs4)
      | (Inr stocks_dbs, offer_ids_dbs') \<Rightarrow>
     (case dispatch (market_update_stocks mk (campaign_dbs_id env)) stocks_dbs 2000 reqs4 of
        (Inl e, reqs5) \<Rightarrow> Some (Inl e, reqs5)
      | (Inr u, reqs5) \<Rightarrow>
     (case upload_prices_body mk watch_remnants (campaign_dbs_id env) reqs5 of
        None \<Rightarrow> None
      | Some (Inl e, reqs6) \<Rightarrow> Some (Inl e, reqs6)
      | Some (Inr prices_dbs, reqs6) \<Rightarrow> Some (Inr (), reqs6)))))))))"

definition sequential_main ::
  "market \<Rightarrow> settings \<Rightarrow> string \<Rightarrow> string \<Rightarrow> error + watch list
     \<Rightarrow> ((error + message option) \<times> market_request list) option" where
  "sequential_main mk env date_fbs date_dbs download =
     (case download of
        Inl e \<Rightarrow> Some (Inl e, [])
      | Inr watch_remnants \<Rightarrow>
          (case sequential_main_try mk env date_fbs date_dbs watch_remnants of
             None \<Rightarrow> None
           | Some (Inl e, reqs) \<Rightarrow> Some (Inr (Some (handler e)), reqs)
           | Some (Inr u, reqs) \<Rightarrow> Some (Inr None, reqs)))"

section \<open>Notions used to state the properties\<close>

text \<open>The number a string of decimal digits denotes.\<close>

definition decimal_value :: "string \<Rightarrow> nat" where
  "decimal_value ds = foldl (\<lambda>a c. 10 * a + digit_val c) 0 ds"

text \<open>A stock entry of seller.py in the shape market.py sends it.\<close>

definition as_market_stock :: "string \<Rightarrow> string \<Rightarrow> stock_entry \<Rightarrow> market_stock" where
  "as_market_stock warehouse_id date e =
     \<lparr>sku = offer_id e, warehouseId = warehouse_id,
      stock_items = [\<lparr>item_count = stock e, item_type = ''FIT'', updatedAt = date\<rparr>]\<rparr>"

text \<open>The marketplace answers the successive requests of seller.py's loop, the first one
  made with cursor \<open>lastid\<close> after the requests \<open>reqs\<close>, with the pages \<open>ps\<close>.\<close>

fun serves :: "ozon \<Rightarrow> ozon_request list \<Rightarrow> string \<Rightarrow> product_page list \<Rightarrow> bool" where
  "serves oz reqs lastid [] = True"
| "serves oz reqs lastid (p # ps) =
     (product_list_answer oz reqs lastid = Inr p \<and>
      serves oz (reqs @ [ProductList lastid]) (last_id p) ps)"

text \<open>With \<open>n\<close> items fetched before, none of the pages \<open>ps\<close> brings the number of items
  to the total it declares.\<close>

fun incomplete :: "nat \<Rightarrow> product_page list \<Rightarrow> bool" where
  "incomplete n [] = True"
| "incomplete n (p # ps) =
     (total p \<noteq> int (n + length (items p)) \<and> incomplete (n + length (items p)) ps)"

text \<open>The next page token as market.py's loop reads it: empty when absent.\<close>

definition next_page :: "mapping_page \<Rightarrow> string" where
  "next_page p = (case nextPageToken p of None \<Rightarrow> [] | Some t \<Rightarrow> t)"

fun market_serves ::
  "market \<Rightarrow> string \<Rightarrow> market_request list \<Rightarrow> string \<Rightarrow> mapping_page list \<Rightarrow> bool" where
  "market_serves mk c reqs page [] = True"
| "market_serves mk c reqs page (p # ps) =
     (offer_mapping_answer mk reqs c page = Inr p \<and>
      market_serves mk c (reqs @ [OfferMappingEntries c page]) (next_page p) ps)"

fun all_continue :: "mapping_page list \<Rightarrow> bool" where
  "all_continue [] = True"
| "all_continue (p # ps) = (next_page p \<noteq> [] \<and> all_continue ps)"

section \<open>Example marketplaces\<close>

text \<open>An Ozon shop with the offers A and B on two pages of one item each; one whose catalog
  is empty; one whose second page fetch fails.\<close>

definition two_page_shop :: ozon where
  "two_page_shop =
     \<lparr>product_list_answer = (\<lambda>reqs lastid.
        if lastid = [] then Inr \<lparr>items = [\<lparr>product_offer_id = ''A''\<rparr>], total = 2, last_id = ''A''\<rparr>
        else Inr \<lparr>items = [\<lparr>product_offer_id = ''B''\<rparr>], total = 2, last_id = ''B''\<rparr>),
      import_stocks_answer = (\<lambda>reqs stocks. Inr ()),
      import_prices_answer = (\<lambda>reqs prices. Inr ())\<rparr>"

definition empty_shop :: ozon where
  "empty_shop =
     \<lparr>product_list_answer = (\<lambda>reqs lastid. Inr \<lparr>items = [], total = 0, last_id = []\<rparr>),
      import_stocks_answer = (\<lambda>reqs stocks. Inr ()),
      import_prices_answer = (\<lambda>reqs prices. Inr ())\<rparr>"

definition failing_shop :: ozon where
  "failing_shop =
     \<lparr>product_list_answer = (\<lambda>reqs lastid.
        if lastid = [] then Inr \<lparr>items = [\<lparr>product_offer_id = ''A''\<rparr>], total = 2, last_id = ''A''\<rparr>
        else Inl HTTPError),
      import_stocks_answer = (\<lambda>reqs stocks. Inr ()),
      import_prices_answer = (\<lambda>reqs prices. Inr ())\<rparr>"

text \<open>The same three for Yandex Market, whatever the campaign.\<close>

definition two_page_market :: market where
  "two_page_market =
     \<lparr>offer_mapping_answer = (\<lambda>reqs campaign_id page.
        if page = [] then Inr \<lparr>offerMappingEntries = [\<lparr>shopSku = ''A''\<rparr>], nextPageToken = Some ''t1''\<rparr>
        else Inr \<lparr>offerMappingEntries = [\<lparr>shopSku = ''B''\<rparr>], nextPageToken = None\<rparr>),
      put_stocks_answer = (\<lambda>reqs campaign_id stocks. Inr ()),
      post_prices_answer = (\<lambda>reqs campaign_id prices. Inr ())\<rparr>"

definition empty_market :: market where
  "empty_market =
     \<lparr>offer_mapping_answer = (\<lambda>reqs campaign_id page.
        Inr \<lparr>offerMappingEntries = [], nextPageToken = Some []\<rparr>),
      put_stocks_answer = (\<lambda>reqs campaign_id stocks. Inr ()),
      post_prices_answer = (\<lambda>reqs campaign_id prices. Inr ())\<rparr>"

definition failing_market :: market where
  "failing_market =
     \<lparr>offer_mapping_answer = (\<lambda>reqs campaign_id page.
        if page = [] then Inr \<lparr>offerMappingEntries = [\<lparr>shopSku = ''A''\<rparr>], nextPageToken = Some ''t1''\<rparr>
        else Inl ConnectionError),
      put_stocks_answer = (\<lambda>reqs campaign_id stocks. Inr ()),
      post_prices_answer = (\<lambda>reqs campaign_id prices. Inr ())\<rparr>"

text \<open>A Yandex Market campaign with the single offer A, on one page.\<close>

definition one_page_market :: market where
  "one_page_market =
     \<lparr>offer_mapping_answer = (\<lambda>reqs campaign_id page.
        Inr \<lparr>offerMappingEntries = [\<lparr>shopSku = ''A''\<rparr>], nextPageToken = None\<rparr>),
      put_stocks_answer = (\<lambda>reqs campaign_id stocks. Inr ()),
      post_prices_answer = (\<lambda>reqs campaign_id prices. Inr ())\<rparr>"

definition example_settings :: settings where
  "example_settings =
     \<lparr>campaign_fbs_id = ''fbs'', campaign_dbs_id = ''dbs'',
      warehouse_fbs_id = ''w1'', warehouse_dbs_id = ''w2''\<rparr>"

text \<open>The requests that update prices on Yandex Market.\<close>

fun is_post_prices :: "market_request \<Rightarrow> bool" where
  "is_post_prices (PostPrices campaign_id prices) = True"
| "is_post_prices request = False"

section \<open>Reading numbers\<close>

lemma digits_value_all_digits:
  "\<forall>c \<in> set cs. is_digit c \<Longrightarrow>
     digits_value cs acc = Some (foldl (\<lambda>a c. 10 * a + digit_val c) acc cs)"
  by (induction cs arbitrary: acc) simp_all

lemma unsigned_value_digits:
  "cs \<noteq> [] \<Longrightarrow> \<forall>c \<in> set cs. is_digit c \<Longrightarrow> unsigned_value cs = Some (decimal_value cs)"
  by (cases cs) (simp_all add: unsigned_value_def decimal_value_def digits_value_all_digits)

lemma digits_value_chars:
  "digits_value cs acc = Some v \<Longrightarrow> \<forall>c \<in> set cs. is_digit c \<or> c = CHR ''_''"
proof (induction cs acc rule: digits_value.induct)
  case (1 acc)
  then show ?case by simp
next
  case (2 c cs acc)
  then show ?case
    by (cases cs) (auto split: if_splits)
qed

lemma unsigned_value_chars:
  "unsigned_value s = Some v \<Longrightarrow> \<forall>c \<in> set s. is_digit c \<or> c = CHR ''_''"
  by (cases s) (auto simp: unsigned_value_def split: if_splits dest: digits_value_chars)

lemma py_strip_id:
  "s \<noteq> [] \<Longrightarrow> \<not> is_space (hd s) \<Longrightarrow> \<not> is_space (last s) \<Longrightarrow> py_strip s = s"
proof -
  assume s: "s \<noteq> []" and h: "\<not> is_space (hd s)" and l: "\<not> is_space (last s)"
  from s h have 1: "dropWhile is_space s = s" by (cases s) simp_all
  from s l have "\<not> is_space (hd (rev s))" by (simp add: hd_rev)
  with s have 2: "dropWhile is_space (rev s) = rev s" by (cases "rev s") simp_all
  show ?thesis by (simp add: py_strip_def 1 2)
qed

lemma set_py_strip: "c \<in> set s \<Longrightarrow> \<not> is_space c \<Longrightarrow> c \<in> set (py_strip s)"
proof -
  have keep: "\<And>xs. c \<in> set xs \<Longrightarrow> \<not> is_space c \<Longrightarrow> c \<in> set (dropWhile is_space xs)"
    by (metis dropWhile_append3 in_set_conv_decomp list.set_intros(1) set_append Un_iff dropWhile_eq_Cons_conv split_list_first takeWhile_dropWhile_id)
  assume "c \<in> set s" "\<not> is_space c"
  then show ?thesis
    using keep [of "rev (dropWhile is_space s)"] keep [of s] by (simp add: py_strip_def)
qed

lemma is_digit_not_space: "is_digit c \<Longrightarrow> \<not> is_space c"
  by (auto simp: is_digit_def is_space_def)

lemma filter_all: "\<forall>c \<in> set s. P c \<Longrightarrow> filter P s = s"
  by (induction s) simp_all

lemma ascii_int_digits:
  "s \<noteq> [] \<Longrightarrow> \<forall>c \<in> set s. is_digit c \<Longrightarrow>
     ascii_int s =
       (if int_max_str_digits < length s then Inl ValueError else Inr (int (decimal_value s)))"
proof -
  assume s: "s \<noteq> []" and d: "\<forall>c \<in> set s. is_digit c"
  then have "is_digit (hd s)" "is_digit (last s)" by simp_all
  then have "py_strip s = s"
    using s by (intro py_strip_id) (simp_all add: is_digit_not_space)
  moreover obtain c cs where c: "s = c # cs" using s by (cases s) auto
  moreover have "c \<noteq> CHR ''+''" "c \<noteq> CHR ''-''"
    using d c by (auto simp: is_digit_def)
  moreover have "filter is_digit s = s" using d by (rule filter_all)
  ultimately show ?thesis
    using unsigned_value_digits [OF s d] by (simp add: ascii_int_def)
qed

lemma ascii_int_bad_char:
  assumes "c \<in> set s" "\<not> is_space c" "\<not> is_digit c"
    "c \<noteq> CHR ''+''" "c \<noteq> CHR ''-''" "c \<noteq> CHR ''_''"
  shows "ascii_int s = Inl ValueError"
proof -
  have c: "c \<in> set (py_strip s)" using assms by (simp add: set_py_strip)
  have none: "\<And>t. c \<in> set t \<Longrightarrow> unsigned_value t = None"
    using assms unsigned_value_chars by (metis not_Some_eq)
  show ?thesis
  proof (cases "py_strip s")
    case Nil
    then show ?thesis by (simp add: ascii_int_def)
  next
    case (Cons d ds)
    with c assms none [of ds] none [of "d # ds"] show ?thesis
      by (auto simp: ascii_int_def)
  qed
qed

lemma ascii_int_error: "ascii_int s = Inl e \<Longrightarrow> e = ValueError"
  by (auto simp: ascii_int_def split: list.splits if_splits option.splits)

lemma is_digit_ascii: "is_digit c \<Longrightarrow> is_ascii c"
  by (simp add: is_digit_def is_ascii_def)

lemma int_of_string_ascii: "list_all is_ascii s \<Longrightarrow> int_of_string s = ascii_int s"
  by (simp add: int_of_string_def)

lemma int_of_string_digits:
  "s \<noteq> [] \<Longrightarrow> \<forall>c \<in> set s. is_digit c \<Longrightarrow>
     int_of_string s =
       (if int_max_str_digits < length s then Inl ValueError else Inr (int (decimal_value s)))"
proof -
  assume s: "s \<noteq> []" and d: "\<forall>c \<in> set s. is_digit c"
  then have "list_all is_ascii s" by (simp add: list_all_iff is_digit_ascii)
  with ascii_int_digits [OF s d] show ?thesis by (simp add: int_of_string_ascii)
qed

lemma int_of_string_bad_char:
  assumes "list_all is_ascii s" "c \<in> set s" "\<not> is_space c" "\<not> is_digit c"
    "c \<noteq> CHR ''+''" "c \<noteq> CHR ''-''" "c \<noteq> CHR ''_''"
  shows "int_of_string s = Inl ValueError"
  using assms(1) ascii_int_bad_char [OF assms(2-)] by (simp add: int_of_string_ascii)

lemma int_of_string_error: "int_of_string s = Inl e \<Longrightarrow> e = ValueError"
  by (auto simp: int_of_string_def dest: ascii_int_error split: if_splits)

lemma digit_char_props: "d < 10 \<Longrightarrow> is_digit (digit_char d) \<and> digit_val (digit_char d) = d"
  by (simp add: is_digit_def digit_val_def digit_char_def)

lemma show_nat_digits:
  "show_nat n \<noteq> [] \<and> (\<forall>c \<in> set (show_nat n). is_digit c) \<and> decimal_value (show_nat n) = n"
proof (induction n rule: show_nat.induct)
  case (1 n)
  show ?case
  proof (cases "n < 10")
    case True
    then show ?thesis
      by (subst (1 2 3) show_nat.simps) (simp add: digit_char_props decimal_value_def)
  next
    case False
    with 1 have ih: "show_nat (n div 10) \<noteq> []" "\<forall>c \<in> set (show_nat (n div 10)). is_digit c"
      "decimal_value (show_nat (n div 10)) = n div 10" by simp_all
    have u: "show_nat n = show_nat (n div 10) @ [digit_char (n mod 10)]"
      using False by (subst show_nat.simps) simp
    have "decimal_value (show_nat n) = 10 * (n div 10) + n mod 10"
      using ih(3) by (simp add: u decimal_value_def digit_char_props)
    with ih show ?thesis by (auto simp: u digit_char_props)
  qed
qed

lemma int_of_string_show_nat:
  "length (show_nat n) \<le> int_max_str_digits \<Longrightarrow> int_of_string (show_nat n) = Inr (int n)"
  using int_of_string_digits [of "show_nat n"] show_nat_digits [of n] by simp

lemma int_of_string_show_int:
  assumes "length (show_nat (nat \<bar>i\<bar>)) \<le> int_max_str_digits"
  shows "int_of_string (show_int i) = Inr i"
proof (cases "i < 0")
  case False
  with assms show ?thesis by (simp add: show_int_def int_of_string_show_nat)
next
  case True
  define n where "n = nat (- i)"
  have n: "nat \<bar>i\<bar> = n" using True by (simp add: n_def)
  have d: "show_nat n \<noteq> []" "\<forall>c \<in> set (show_nat n). is_digit c" "decimal_value (show_nat n) = n"
    using show_nat_digits [of n] by simp_all
  have "\<not> is_space (last (show_nat n))" using d by (simp add: is_digit_not_space)
  then have strip: "py_strip (CHR ''-'' # show_nat n) = CHR ''-'' # show_nat n"
    using d(1) by (intro py_strip_id) (simp_all add: is_space_def)
  have digits: "filter is_digit (CHR ''-'' # show_nat n) = show_nat n"
    using filter_all [of "show_nat n" is_digit] d(2) by (simp add: is_digit_def)
  have "is_ascii CHR ''-''" by (simp add: is_ascii_def)
  then have ascii: "list_all is_ascii (CHR ''-'' # show_nat n)"
    using d(2) by (simp add: list_all_iff is_digit_ascii)
  have "ascii_int (CHR ''-'' # show_nat n) = Inr (- int n)"
    unfolding ascii_int_def strip digits
    using unsigned_value_digits [OF d(1,2)] d(3) assms n by simp
  with True ascii show ?thesis by (simp add: show_int_def n_def int_of_string_ascii)
qed

lemma int_of_string_examples:
  "int_of_string ''1'' = Inr 1" "int_of_string ''>10'' = Inl ValueError"
  "int_of_string ''abc'' = Inl ValueError" "int_of_string ''7'' = Inr 7"
  "int_of_string '' 1_000 '' = Inr 1000" "int_of_string ''+1'' = Inr 1"  "int_of_string ''-12'' = Inr (-12)"
  "int_of_string ''1__0'' = Inl ValueError" "int_of_string '''' = Inl ValueError"
  by (simp_all add: int_of_string_def is_ascii_def ascii_int_def int_max_str_digits_def
      py_strip_def is_space_def unsigned_value_def is_digit_def digit_val_def)

text \<open>Outside ASCII: a no-break space before the digit, an Arabic-Indic three, a
  full-width seven; the ASCII control character 28 is no blank for \<open>int\<close>, and a Cyrillic
  letter is no digit.\<close>

lemma int_of_string_unicode_examples:
  "int_of_string [CHR 0xC2, CHR 0xA0, CHR ''5''] = Inr 5"
  "int_of_string [CHR 0xD9, CHR 0xA3] = Inr 3"
  "int_of_string [CHR 0xEF, CHR 0xBC, CHR 0x97] = Inr 7"
  "int_of_string [CHR 0x1C, CHR ''5''] = Inl ValueError"
  "int_of_string [CHR 0xD1, CHR 0x80] = Inl ValueError"
  by (simp_all add: int_of_string_def is_ascii_def continuation_def low_bits_def to_ascii_def
      unicode_blanks_def decimal_zeros_def unicode_decimal_def digit_char_def char_of_eq_iff
      ascii_int_def int_max_str_digits_def py_strip_def is_space_def unsigned_value_def
      is_digit_def digit_val_def)

text \<open>
  C3. The quantity policy, for every quantity cell that is a string \<open>raw\<close>: the result is
  100 when \<open>raw\<close> is \<open>>10\<close>, 0 when it is \<open>1\<close>, and otherwise what \<open>int(raw)\<close> gives. There,
  a non-empty string of decimal digits gives the number it denotes, unless it has more
  digits than the limit on conversions (4300), and the decimal numeral of an integer
  within that limit gives the integer. An ASCII string with a character that is no
  digit, blank, sign or underscore fails with ValueError (the specification's
  FormatError), and no other error can arise: \<open>7\<close> gives 7 and \<open>abc\<close> fails. Outside
  ASCII, \<open>int\<close> reads the blanks and digits of Unicode: a no-break space before \<open>5\<close>
  gives 5.
\<close>

theorem quantity_policy:
  "stock_count (w\<lparr>kolichestvo := PStr raw\<rparr>) =
     (if raw = ''>10'' then Inr 100 else if raw = ''1'' then Inr 0 else int_of_string raw) \<and>
   (raw \<noteq> [] \<and> (\<forall>c \<in> set raw. is_digit c) \<and> raw \<noteq> ''1'' \<longrightarrow>
      stock_count (w\<lparr>kolichestvo := PStr raw\<rparr>) =
        (if int_max_str_digits < length raw then Inl ValueError
         else Inr (int (decimal_value raw)))) \<and>
   (i \<noteq> 1 \<and> length (show_nat (nat \<bar>i\<bar>)) \<le> int_max_str_digits \<longrightarrow>
      stock_count (w\<lparr>kolichestvo := PStr (show_int i)\<rparr>) = Inr i) \<and>
   (raw \<noteq> ''>10'' \<and> list_all is_ascii raw \<and>
    (\<exists>c \<in> set raw. \<not> is_digit c \<and> \<not> is_space c \<and> c \<notin> {CHR ''+'', CHR ''-'', CHR ''_''}) \<longrightarrow>
      stock_count (w\<lparr>kolichestvo := PStr raw\<rparr>) = Inl ValueError) \<and>
   (\<forall>e. stock_count (w\<lparr>kolichestvo := PStr raw\<rparr>) = Inl e \<longrightarrow> e = ValueError) \<and>
   int_max_str_digits = 4300 \<and>
   stock_count (w\<lparr>kolichestvo := PStr ''7''\<rparr>) = Inr 7 \<and>
   stock_count (w\<lparr>kolichestvo := PStr ''abc''\<rparr>) = Inl ValueError \<and>
   stock_count (w\<lparr>kolichestvo := PStr [CHR 0xC2, CHR 0xA0, CHR ''5'']\<rparr>) = Inr 5"
proof -
  have policy: "\<And>r. stock_count (w\<lparr>kolichestvo := PStr r\<rparr>) =
     (if r = ''>10'' then Inr 100 else if r = ''1'' then Inr 0 else int_of_string r)"
    by (simp add: stock_count_def)
  have digits: "raw \<noteq> [] \<and> (\<forall>c \<in> set raw. is_digit c) \<and> raw \<noteq> ''1'' \<longrightarrow>
      stock_count (w\<lparr>kolichestvo := PStr raw\<rparr>) =
        (if int_max_str_digits < length raw then Inl ValueError
         else Inr (int (decimal_value raw)))"
  proof
    assume a: "raw \<noteq> [] \<and> (\<forall>c \<in> set raw. is_digit c) \<and> raw \<noteq> ''1''"
    then have "raw \<noteq> ''>10''" by (auto simp: is_digit_def)
    moreover from a have "int_of_string raw =
        (if int_max_str_digits < length raw then Inl ValueError
         else Inr (int (decimal_value raw)))"
      using int_of_string_digits [of raw] by blast
    ultimately show "stock_count (w\<lparr>kolichestvo := PStr raw\<rparr>) =
        (if int_max_str_digits < length raw then Inl ValueError
         else Inr (int (decimal_value raw)))"
      using a by (simp only: policy if_False)
  qed
  have canonical: "i \<noteq> 1 \<and> length (show_nat (nat \<bar>i\<bar>)) \<le> int_max_str_digits \<longrightarrow>
      stock_count (w\<lparr>kolichestvo := PStr (show_int i)\<rparr>) = Inr i"
  proof
    assume a: "i \<noteq> 1 \<and> length (show_nat (nat \<bar>i\<bar>)) \<le> int_max_str_digits"
    then have r: "int_of_string (show_int i) = Inr i" by (simp add: int_of_string_show_int)
    have "show_int i \<noteq> ''>10''" "show_int i \<noteq> ''1''"
      using r a by (auto simp: int_of_string_examples)
    then show "stock_count (w\<lparr>kolichestvo := PStr (show_int i)\<rparr>) = Inr i"
      by (simp add: policy r)
  qed
  have bad: "raw \<noteq> ''>10'' \<and> list_all is_ascii raw \<and>
    (\<exists>c \<in> set raw. \<not> is_digit c \<and> \<not> is_space c \<and> c \<notin> {CHR ''+'', CHR ''-'', CHR ''_''}) \<longrightarrow>
      stock_count (w\<lparr>kolichestvo := PStr raw\<rparr>) = Inl ValueError"
  proof
    assume a: "raw \<noteq> ''>10'' \<and> list_all is_ascii raw \<and>
      (\<exists>c \<in> set raw. \<not> is_digit c \<and> \<not> is_space c \<and> c \<notin> {CHR ''+'', CHR ''-'', CHR ''_''})"
    then obtain c where c: "c \<in> set raw" "\<not> is_digit c" "\<not> is_space c"
      "c \<noteq> CHR ''+''" "c \<noteq> CHR ''-''" "c \<noteq> CHR ''_''" by auto
    then have "raw \<noteq> ''1''" by (auto simp: is_digit_def)
    moreover from a have "list_all is_ascii raw" by simp
    from int_of_string_bad_char [OF this c(1) c(3) c(2) c(4) c(5) c(6)]
    have "int_of_string raw = Inl ValueError" .
    ultimately show "stock_count (w\<lparr>kolichestvo := PStr raw\<rparr>) = Inl ValueError"
      using a by (simp add: policy)
  qed
  have err: "\<forall>e. stock_count (w\<lparr>kolichestvo := PStr raw\<rparr>) = Inl e \<longrightarrow> e = ValueError"
    by (auto simp: policy dest: int_of_string_error split: if_splits)
  have ex: "stock_count (w\<lparr>kolichestvo := PStr ''7''\<rparr>) = Inr 7"
    "stock_count (w\<lparr>kolichestvo := PStr ''abc''\<rparr>) = Inl ValueError"
    "stock_count (w\<lparr>kolichestvo := PStr [CHR 0xC2, CHR 0xA0, CHR ''5'']\<rparr>) = Inr 5"
    by (simp_all add: policy int_of_string_examples int_of_string_unicode_examples)
  have lim: "int_max_str_digits = 4300" by (simp add: int_max_str_digits_def)
  from policy [of raw] digits canonical bad err ex lim show ?thesis by blast
qed

theorem quantity_policy_witness:
  "stock_count \<lparr>kod = PStr ''A'', kolichestvo = PStr ''>10'', tsena = PStr ''''\<rparr> = Inr 100 \<and>
   stock_count \<lparr>kod = PStr ''A'', kolichestvo = PStr ''1'', tsena = PStr ''''\<rparr> = Inr 0 \<and>
   ''42'' \<noteq> ''1'' \<and> decimal_value ''42'' = 42 \<and> \<not> int_max_str_digits < length ''42'' \<and>
   stock_count \<lparr>kod = PStr ''A'', kolichestvo = PStr ''42'', tsena = PStr ''''\<rparr> = Inr 42 \<and>
   (- 3 :: int) \<noteq> 1 \<and> length (show_nat (nat \<bar>- 3\<bar>)) \<le> int_max_str_digits \<and>
   stock_count \<lparr>kod = PStr ''A'', kolichestvo = PStr (show_int (- 3)), tsena = PStr ''''\<rparr> = Inr (- 3) \<and>
   ''4x'' \<noteq> ''>10'' \<and> list_all is_ascii ''4x'' \<and> \<not> is_digit CHR ''x'' \<and> \<not> is_space CHR ''x'' \<and>
   stock_count \<lparr>kod = PStr ''A'', kolichestvo = PStr ''4x'', tsena = PStr ''''\<rparr> = Inl ValueError"
proof -
  let ?w = "\<lparr>kod = PStr ''A'', kolichestvo = PStr ''>10'', tsena = PStr ''''\<rparr>"
  have d: "''42'' \<noteq> [] \<and> (\<forall>c \<in> set ''42''. is_digit c) \<and> ''42'' \<noteq> ''1''"
    by (simp add: is_digit_def)
  have l: "\<not> int_max_str_digits < length ''42''"
    by (simp add: int_max_str_digits_def)
  have n: "(- 3 :: int) \<noteq> 1 \<and> length (show_nat (nat \<bar>- 3\<bar>)) \<le> int_max_str_digits"
    by (simp add: show_nat.simps int_max_str_digits_def)
  have b: "''4x'' \<noteq> ''>10'' \<and> list_all is_ascii ''4x'' \<and>
    (\<exists>c \<in> set ''4x''. \<not> is_digit c \<and> \<not> is_space c \<and> c \<notin> {CHR ''+'', CHR ''-'', CHR ''_''})"
    by (simp add: is_digit_def is_space_def is_ascii_def)
  have v: "decimal_value ''42'' = 42" "\<not> is_digit CHR ''x''" "\<not> is_space CHR ''x''"
    "list_all is_ascii ''4x''"
    by (simp_all add: decimal_value_def digit_val_def is_digit_def is_space_def is_ascii_def)
  from quantity_policy [where w = ?w and raw = "''>10''" and i = "- 3"] n
  have 1: "stock_count ?w = Inr 100"
    and 2: "stock_count (?w\<lparr>kolichestvo := PStr (show_int (- 3))\<rparr>) = Inr (- 3)"
    by simp_all
  from quantity_policy [where w = ?w and raw = "''1''" and i = "- 3"]
  have 3: "stock_count (?w\<lparr>kolichestvo := PStr ''1''\<rparr>) = Inr 0" by simp
  from quantity_policy [where w = ?w and raw = "''42''" and i = "- 3"] d
  have "stock_count (?w\<lparr>kolichestvo := PStr ''42''\<rparr>) =
      (if int_max_str_digits < length ''42'' then Inl ValueError
       else Inr (int (decimal_value ''42'')))"
    by blast
  with l have 4: "stock_count (?w\<lparr>kolichestvo := PStr ''42''\<rparr>) = Inr (int (decimal_value ''42''))"
    by (simp only: if_False)
  from quantity_policy [where w = ?w and raw = "''4x''" and i = "- 3"] b
  have 5: "stock_count (?w\<lparr>kolichestvo := PStr ''4x''\<rparr>) = Inl ValueError"
    by blast
  from 1 2 3 4 5 v l n show ?thesis by simp
qed

section \<open>Reading prices\<close>

lemma price_conversion_digits: "\<forall>c \<in> set (price_conversion_str raw). is_digit c"
  by (simp add: price_conversion_str_def)

lemma market_price_value_str:
  "market_price_value (PStr raw) =
     (if price_conversion_str raw = [] then Inl ValueError
      else if int_max_str_digits < length (price_conversion_str raw) then Inl ValueError
      else Inr (int (decimal_value (price_conversion_str raw))))"
  using int_of_string_digits [of "price_conversion_str raw"] price_conversion_digits [of raw]
  by (simp add: market_price_value_def int_of_string_examples)

lemma price_examples:
  "price_conversion (PStr (''5'990.00 '' @ [CHR 0xD1, CHR 0x80, CHR 0xD1, CHR 0x83, CHR 0xD0, CHR 0xB1] @ ''.'')) = Inr ''5990''"
  "market_price_value (PStr (''5'990.00 '' @ [CHR 0xD1, CHR 0x80, CHR 0xD1, CHR 0x83, CHR 0xD0, CHR 0xB1] @ ''.'')) = Inr 5990"
  "price_conversion (PStr ''100'') = Inr ''100''"
  "market_price_value (PStr ''100'') = Inr 100"
  by (simp_all add: market_price_value_str price_conversion_str_def is_digit_def decimal_value_def
      digit_val_def int_max_str_digits_def)

text \<open>
  C4. The price is cut at the first \<open>.\<close>, every character that is not a digit is dropped,
  and the digits left are read as an integer; with no digit left the operation fails.
  market.py does so, up to the limit of \<open>int\<close> on the number of digits
  (\<open>market_price_value_str\<close>, \<open>price_examples\<close>). seller.py does not fail: its
  \<open>price_conversion\<close> returns the empty string, which \<open>create_prices\<close> sends as the
  price, although the function's docstring announces ValueError for a price without digits.
\<close>

theorem price_conversion_no_digits:
  "price_conversion (PStr '''') = Inr '''' \<and>
   create_prices [\<lparr>kod = PStr ''A'', kolichestvo = PStr ''5'', tsena = PStr ''''\<rparr>] [''A''] =
     Inr [\<lparr>auto_action_enabled = ''UNKNOWN'', currency_code = ''RUB'', price_offer_id = ''A'',
           old_price = ''0'', price = ''''\<rparr>] \<and>
   market_create_prices [\<lparr>kod = PStr ''A'', kolichestvo = PStr ''5'', tsena = PStr ''''\<rparr>] [''A''] =
     Inl ValueError"
  by (simp add: create_prices_def market_create_prices_def market_price_value_str
      price_conversion_str_def)

section \<open>Reconciliation\<close>

lemma subseq_remove1: "subseq (remove1 x xs) xs"
  by (induction xs) auto


lemma match_stocks_mset:
  "match_stocks ws st ids = (Inr out, ids') \<Longrightarrow>
     mset (map offer_id out) + mset ids' = mset (map offer_id st) + mset ids"
proof (induction ws arbitrary: st ids)
  case Nil
  then show ?case by simp
next
  case (Cons w ws)
  show ?case
  proof (cases "py_str (kod w) \<in> set ids")
    case False
    with Cons show ?thesis by simp
  next
    case True
    with Cons.prems obtain n where n: "stock_count w = Inr n"
      by (cases "stock_count w") auto
    with True Cons.prems have
      "match_stocks ws (st @ [\<lparr>offer_id = py_str (kod w), stock = n\<rparr>]) (remove1 (py_str (kod w)) ids)
         = (Inr out, ids')" by simp
    from Cons.IH [OF this] True show ?thesis by simp
  qed
qed

lemma match_stocks_extends:
  "match_stocks ws st ids = (Inr out, ids') \<Longrightarrow> \<exists>more. out = st @ more"
proof (induction ws arbitrary: st ids)
  case Nil
  then show ?case by simp
next
  case (Cons w ws)
  then show ?case
    by (fastforce split: if_splits sum.splits)
qed

lemma match_stocks_shrinks:
  "match_stocks ws st ids = (r, ids') \<Longrightarrow>
     subseq ids' ids \<and> set ids' \<subseteq> set ids \<and> length ids' \<le> length ids"
proof (induction ws arbitrary: st ids)
  case Nil
  then show ?case by simp
next
  case (Cons w ws)
  show ?case
  proof (cases "py_str (kod w) \<in> set ids")
    case False
    with Cons show ?thesis by simp
  next
    case True
    show ?thesis
    proof (cases "stock_count w")
      case (Inl e)
      with True Cons.prems show ?thesis by simp
    next
      case (Inr n)
      let ?ids = "remove1 (py_str (kod w)) ids"
      from Inr True Cons.prems have
        ih: "subseq ids' ?ids" "set ids' \<subseteq> set ?ids" "length ids' \<le> length ?ids"
        using Cons.IH [of _ ?ids] by simp_all
      have "subseq ids' ids"
        using ih(1) subseq_remove1 [of "py_str (kod w)" ids] subseq_order.order_trans by blast
      moreover have "set ids' \<subseteq> set ids"
        using ih(2) set_remove1_subset [of "py_str (kod w)" ids] by blast
      moreover have "length ids' \<le> length ids"
        using ih(3) by (simp add: length_remove1 split: if_splits)
      ultimately show ?thesis by simp
    qed
  qed
qed



lemma match_stocks_total:
  "\<forall>w \<in> set ws. \<exists>n. stock_count w = Inr n \<Longrightarrow> \<exists>out ids'. match_stocks ws st ids = (Inr out, ids')"
proof (induction ws arbitrary: st ids)
  case Nil
  then show ?case by simp
next
  case (Cons w ws)
  then obtain n where "stock_count w = Inr n" by auto
  with Cons show ?case by simp
qed

lemma match_stocks_depleted:
  "distinct ids \<Longrightarrow> match_stocks ws st ids = (Inr out, ids') \<Longrightarrow>
     \<forall>w \<in> set ws. py_str (kod w) \<notin> set ids'"
proof (induction ws arbitrary: st ids)
  case Nil
  then show ?case by simp
next
  case (Cons w ws)
  show ?case
  proof (cases "py_str (kod w) \<in> set ids")
    case False
    with Cons.prems have rest: "match_stocks ws st ids = (Inr out, ids')" by simp
    then have "set ids' \<subseteq> set ids" using match_stocks_shrinks by blast
    with False Cons.IH [OF Cons.prems(1) rest] show ?thesis by auto
  next
    case True
    with Cons.prems obtain n where n: "stock_count w = Inr n"
      by (cases "stock_count w") auto
    with True Cons.prems have rest:
      "match_stocks ws (st @ [\<lparr>offer_id = py_str (kod w), stock = n\<rparr>]) (remove1 (py_str (kod w)) ids)
         = (Inr out, ids')" by simp
    have d: "distinct (remove1 (py_str (kod w)) ids)" using Cons.prems(1) by simp
    from rest have "set ids' \<subseteq> set (remove1 (py_str (kod w)) ids)"
      using match_stocks_shrinks by blast
    then have "py_str (kod w) \<notin> set ids'" using Cons.prems(1) by auto
    with Cons.IH [OF d rest] show ?thesis by simp
  qed
qed

lemma match_prices_unmatched:
  "\<forall>w \<in> set ws. py_str (kod w) \<notin> set ids \<Longrightarrow> match_prices ws ps ids = Inr ps"
  by (induction ws) simp_all

lemma match_prices_ids:
  "match_prices ws ps ids = Inr out \<Longrightarrow>
     map price_offer_id out =
       map price_offer_id ps @ map (\<lambda>w. py_str (kod w)) (filter (\<lambda>w. py_str (kod w) \<in> set ids) ws)"
proof (induction ws arbitrary: ps)
  case Nil
  then show ?case by simp
next
  case (Cons w ws)
  then show ?case
    by (cases "price_conversion (tsena w)") (auto split: if_splits)
qed

lemma market_match_prices_ids:
  "market_match_prices ws ps ids = Inr out \<Longrightarrow>
     map price_id out =
       map price_id ps @ map (\<lambda>w. py_str (kod w)) (filter (\<lambda>w. py_str (kod w) \<in> set ids) ws)"
proof (induction ws arbitrary: ps)
  case Nil
  then show ?case by simp
next
  case (Cons w ws)
  then show ?case
    by (cases "market_price_value (tsena w)") (auto split: if_splits)
qed

lemma match_prices_total:
  "\<forall>w \<in> set ws. \<exists>s. tsena w = PStr s \<Longrightarrow> \<exists>out. match_prices ws ps ids = Inr out"
proof (induction ws arbitrary: ps)
  case Nil
  then show ?case by simp
next
  case (Cons w ws)
  then obtain s where "tsena w = PStr s" by auto
  with Cons show ?case by simp
qed

lemma market_match_stocks_image:
  "market_match_stocks wh d ws (map (as_market_stock wh d) st) ids =
     (map_sum id (map (as_market_stock wh d)) (fst (match_stocks ws st ids)),
      snd (match_stocks ws st ids))"
proof (induction ws arbitrary: st ids)
  case Nil
  then show ?case by simp
next
  case (Cons w ws)
  show ?case
  proof (cases "py_str (kod w) \<in> set ids")
    case False
    with Cons show ?thesis by simp
  next
    case True
    show ?thesis
    proof (cases "stock_count w")
      case (Inl e)
      with True show ?thesis by simp
    next
      case (Inr n)
      with True Cons [of "st @ [\<lparr>offer_id = py_str (kod w), stock = n\<rparr>]" "remove1 (py_str (kod w)) ids"]
      show ?thesis by (simp add: as_market_stock_def)
    qed
  qed
qed

lemma market_create_stocks_image:
  "market_create_stocks d ws ids wh =
     (map_sum id (map (as_market_stock wh d)) (fst (create_stocks ws ids)),
      snd (create_stocks ws ids))"
  using market_match_stocks_image [of wh d ws "[]" ids]
  by (cases "match_stocks ws [] ids"; cases "fst (match_stocks ws [] ids)")
     (simp_all add: market_create_stocks_def create_stocks_def as_market_stock_def)

lemma market_create_stocks_Inr:
  "market_create_stocks d ws ids wh = (Inr mout, ids') \<Longrightarrow>
     \<exists>out. create_stocks ws ids = (Inr out, ids') \<and> mout = map (as_market_stock wh d) out"
  by (cases "create_stocks ws ids"; cases "fst (create_stocks ws ids)")
     (auto simp: market_create_stocks_image)

lemma sku_as_market_stock: "map sku (map (as_market_stock wh d) out) = map offer_id out"
  by (simp add: as_market_stock_def)

lemma create_stocks_Inr:
  "create_stocks ws ids = (Inr out, ids') \<Longrightarrow>
     \<exists>matched. match_stocks ws [] ids = (Inr matched, ids') \<and>
       out = matched @ map (\<lambda>i. \<lparr>offer_id = i, stock = 0\<rparr>) ids'"
  by (cases "match_stocks ws [] ids"; cases "fst (match_stocks ws [] ids)")
     (auto simp: create_stocks_def)

lemma create_stocks_mset:
  "create_stocks ws ids = (Inr out, ids') \<Longrightarrow> mset (map offer_id out) = mset ids"
proof -
  assume "create_stocks ws ids = (Inr out, ids')"
  then obtain matched where m: "match_stocks ws [] ids = (Inr matched, ids')"
    and out: "out = matched @ map (\<lambda>i. \<lparr>offer_id = i, stock = 0\<rparr>) ids'"
    using create_stocks_Inr by blast
  have "map offer_id (map (\<lambda>i. \<lparr>offer_id = i, stock = 0\<rparr>) ids') = ids'"
    by (simp add: comp_def)
  with match_stocks_mset [OF m] out show ?thesis by simp
qed

lemma count_list_matching:
  "count_list (map f (filter (\<lambda>w. f w \<in> S) ws)) c = (if c \<in> S then count_list (map f ws) c else 0)"
  by (induction ws) auto

lemma distinct_count_list: "distinct xs \<Longrightarrow> count_list xs x = (if x \<in> set xs then 1 else 0)"
  by (induction xs) auto

lemma mset_eq_count_list: "mset xs = mset ys \<Longrightarrow> count_list xs x = count_list ys x"
  by (metis count_mset)

lemma match_stocks_append:
  "match_stocks (xs @ ys) st ids =
     (case match_stocks xs st ids of
        (Inl e, ids') \<Rightarrow> (Inl e, ids')
      | (Inr st', ids') \<Rightarrow> match_stocks ys st' ids')"
proof (induction xs arbitrary: st ids)
  case Nil
  then show ?case by simp
next
  case (Cons w xs)
  then show ?case by (simp split: sum.splits)
qed

lemma match_stocks_keeps:
  "match_stocks xs st ids = (r, ids') \<Longrightarrow> c \<in> set ids \<Longrightarrow>
     \<forall>v \<in> set xs. py_str (kod v) \<noteq> c \<Longrightarrow> c \<in> set ids'"
proof (induction xs arbitrary: st ids)
  case Nil
  then show ?case by simp
next
  case (Cons w xs)
  show ?case
  proof (cases "py_str (kod w) \<in> set ids")
    case False
    with Cons show ?thesis by simp
  next
    case True
    show ?thesis
    proof (cases "stock_count w")
      case (Inl e)
      with True Cons.prems show ?thesis by simp
    next
      case (Inr n)
      have "c \<in> set (remove1 (py_str (kod w)) ids)"
        using Cons.prems(2,3) in_set_remove1 [of c "py_str (kod w)" ids] by auto
      with Inr True Cons.prems Cons.IH [of _ "remove1 (py_str (kod w)) ids"]
      show ?thesis by simp
    qed
  qed
qed

lemma match_stocks_first:
  assumes "match_stocks (pre @ w # post) st ids = (Inr out, ids')"
    and "py_str (kod w) \<in> set ids"
    and "\<forall>v \<in> set pre. py_str (kod v) \<noteq> py_str (kod w)"
  shows "\<exists>n. stock_count w = Inr n \<and> \<lparr>offer_id = py_str (kod w), stock = n\<rparr> \<in> set out"
proof -
  obtain r1 ids1 where p: "match_stocks pre st ids = (r1, ids1)"
    by (cases "match_stocks pre st ids") auto
  with assms(1) obtain st1 where r1: "r1 = Inr st1"
    by (cases r1) (auto simp: match_stocks_append)
  with p assms(1) have rest: "match_stocks (w # post) st1 ids1 = (Inr out, ids')"
    by (simp add: match_stocks_append)
  have c: "py_str (kod w) \<in> set ids1"
    using match_stocks_keeps [OF p assms(2,3)] .
  with rest obtain n where n: "stock_count w = Inr n"
    by (cases "stock_count w") auto
  with c rest have "match_stocks post (st1 @ [\<lparr>offer_id = py_str (kod w), stock = n\<rparr>])
      (remove1 (py_str (kod w)) ids1) = (Inr out, ids')" by simp
  then obtain more where "out = (st1 @ [\<lparr>offer_id = py_str (kod w), stock = n\<rparr>]) @ more"
    using match_stocks_extends by blast
  with n show ?thesis by auto
qed

lemma match_stocks_single:
  "match_stocks ws st ids = (Inr out, ids') \<Longrightarrow> count_list ids c \<le> 1 \<Longrightarrow>
     \<exists>w \<in> set ws. py_str (kod w) = c \<Longrightarrow> c \<notin> set ids'"
proof (induction ws arbitrary: st ids)
  case Nil
  then show ?case by simp
next
  case (Cons w ws)
  show ?case
  proof (cases "c \<in> set ids")
    case False
    with Cons.prems(1) show ?thesis using match_stocks_shrinks by blast
  next
    case c: True
    show ?thesis
    proof (cases "py_str (kod w) \<in> set ids")
      case False
      with c Cons show ?thesis by auto
    next
      case True
      with Cons.prems obtain n where n: "stock_count w = Inr n"
        by (cases "stock_count w") auto
      let ?ids = "remove1 (py_str (kod w)) ids"
      from n True Cons.prems have rest:
        "match_stocks ws (st @ [\<lparr>offer_id = py_str (kod w), stock = n\<rparr>]) ?ids = (Inr out, ids')"
        by simp
      show ?thesis
      proof (cases "py_str (kod w) = c")
        case True
        have "count_list ids c = 1"
          using c Cons.prems(2) by (metis count_list_0_iff le_neq_implies_less less_one)
        then have "c \<notin> set (remove1 c ids)"
          by (induction ids) (auto split: if_splits simp: count_list_0_iff)
        with True rest show ?thesis using match_stocks_shrinks by blast
      next
        case False
        then have "count_list ?ids c = count_list ids c"
          by (induction ids) auto
        with False Cons.prems Cons.IH [OF rest] show ?thesis by auto
      qed
    qed
  qed
qed




text \<open>
  C2. Whenever \<open>create_stocks\<close> returns its list, the offer ids of the list are, as a
  multiset, the offer ids given: with no id given twice, each given id is the offer id of
  exactly one entry and no other id occurs, whatever the records, duplicates included.
  The same holds for the sku fields of market.py. The list is returned whenever every quantity can be
  normalised.
\<close>

theorem stocks_bijection:
  "(create_stocks ws ids = (Inr out, ids') \<longrightarrow>
      mset (map offer_id out) = mset ids \<and>
      (distinct ids \<longrightarrow>
         (\<forall>i. count_list (map offer_id out) i = (if i \<in> set ids then 1 else 0)))) \<and>
   (market_create_stocks d ws ids wh = (Inr mout, ids'') \<longrightarrow>
      mset (map sku mout) = mset ids \<and>
      (distinct ids \<longrightarrow>
         (\<forall>i. count_list (map sku mout) i = (if i \<in> set ids then 1 else 0)))) \<and>
   ((\<forall>w \<in> set ws. \<exists>n. stock_count w = Inr n) \<longrightarrow>
      (\<exists>out ids'. create_stocks ws ids = (Inr out, ids')) \<and>
      (\<exists>mout ids'. market_create_stocks d ws ids wh = (Inr mout, ids')))"
proof -
  have once: "\<And>xs. mset xs = mset ids \<Longrightarrow> distinct ids \<Longrightarrow>
      (\<forall>i. count_list xs i = (if i \<in> set ids then 1 else 0))"
    using mset_eq_count_list distinct_count_list by metis
  have seller: "create_stocks ws ids = (Inr out, ids') \<longrightarrow>
      mset (map offer_id out) = mset ids \<and>
      (distinct ids \<longrightarrow>
         (\<forall>i. count_list (map offer_id out) i = (if i \<in> set ids then 1 else 0)))"
    using create_stocks_mset once by blast
  have market: "market_create_stocks d ws ids wh = (Inr mout, ids'') \<longrightarrow>
      mset (map sku mout) = mset ids \<and>
      (distinct ids \<longrightarrow>
         (\<forall>i. count_list (map sku mout) i = (if i \<in> set ids then 1 else 0)))"
  proof
    assume "market_create_stocks d ws ids wh = (Inr mout, ids'')"
    then obtain out where o: "create_stocks ws ids = (Inr out, ids'')"
      and m: "mout = map (as_market_stock wh d) out"
      using market_create_stocks_Inr by blast
    have "map sku mout = map offer_id out" unfolding m by (rule sku_as_market_stock)
    with create_stocks_mset [OF o] have "mset (map sku mout) = mset ids" by simp
    with once show "mset (map sku mout) = mset ids \<and>
      (distinct ids \<longrightarrow>
         (\<forall>i. count_list (map sku mout) i = (if i \<in> set ids then 1 else 0)))" by blast
  qed
  have total: "(\<forall>w \<in> set ws. \<exists>n. stock_count w = Inr n) \<longrightarrow>
      (\<exists>out ids'. create_stocks ws ids = (Inr out, ids')) \<and>
      (\<exists>mout ids'. market_create_stocks d ws ids wh = (Inr mout, ids'))"
  proof
    assume "\<forall>w \<in> set ws. \<exists>n. stock_count w = Inr n"
    then obtain matched ids1 where "match_stocks ws [] ids = (Inr matched, ids1)"
      using match_stocks_total by blast
    then have "create_stocks ws ids =
        (Inr (matched @ map (\<lambda>i. \<lparr>offer_id = i, stock = 0\<rparr>) ids1), ids1)"
      by (simp add: create_stocks_def)
    then show "(\<exists>out ids'. create_stocks ws ids = (Inr out, ids')) \<and>
      (\<exists>mout ids'. market_create_stocks d ws ids wh = (Inr mout, ids'))"
      by (simp add: market_create_stocks_image)
  qed
  from seller market total show ?thesis by blast
qed

theorem stocks_bijection_witness:
  "stock_count \<lparr>kod = PStr ''A'', kolichestvo = PStr ''5'', tsena = PStr ''100.00''\<rparr> = Inr 5 \<and>
   stock_count \<lparr>kod = PStr ''B'', kolichestvo = PStr ''>10'', tsena = PStr ''200.50''\<rparr> = Inr 100 \<and>
   stock_count \<lparr>kod = PStr ''A'', kolichestvo = PStr ''9'', tsena = PStr ''100.00''\<rparr> = Inr 9 \<and>
   create_stocks
     [\<lparr>kod = PStr ''A'', kolichestvo = PStr ''5'', tsena = PStr ''100.00''\<rparr>,
      \<lparr>kod = PStr ''B'', kolichestvo = PStr ''>10'', tsena = PStr ''200.50''\<rparr>,
      \<lparr>kod = PStr ''A'', kolichestvo = PStr ''9'', tsena = PStr ''100.00''\<rparr>]
     [''A'', ''B'', ''C''] =
     (Inr [\<lparr>offer_id = ''A'', stock = 5\<rparr>, \<lparr>offer_id = ''B'', stock = 100\<rparr>,
           \<lparr>offer_id = ''C'', stock = 0\<rparr>], [''C'']) \<and>
   market_create_stocks ''2024-01-01T00:00:00Z''
     [\<lparr>kod = PStr ''A'', kolichestvo = PStr ''5'', tsena = PStr ''100.00''\<rparr>,
      \<lparr>kod = PStr ''B'', kolichestvo = PStr ''>10'', tsena = PStr ''200.50''\<rparr>,
      \<lparr>kod = PStr ''A'', kolichestvo = PStr ''9'', tsena = PStr ''100.00''\<rparr>]
     [''A'', ''B'', ''C''] ''w1'' =
     (Inr (map (as_market_stock ''w1'' ''2024-01-01T00:00:00Z'')
            [\<lparr>offer_id = ''A'', stock = 5\<rparr>, \<lparr>offer_id = ''B'', stock = 100\<rparr>,
             \<lparr>offer_id = ''C'', stock = 0\<rparr>]), [''C'']) \<and>
   distinct [''A'', ''B'', ''C''] \<and>
   mset [''A'', ''B'', ''C''] = mset [''A'', ''B'', ''C''] \<and>
   count_list [''A'', ''B'', ''C''] ''A'' = 1 \<and> count_list [''A'', ''B'', ''C''] ''D'' = 0"
proof -
  let ?ws = "[\<lparr>kod = PStr ''A'', kolichestvo = PStr ''5'', tsena = PStr ''100.00''\<rparr>,
      \<lparr>kod = PStr ''B'', kolichestvo = PStr ''>10'', tsena = PStr ''200.50''\<rparr>,
      \<lparr>kod = PStr ''A'', kolichestvo = PStr ''9'', tsena = PStr ''100.00''\<rparr>]"
  let ?out = "[\<lparr>offer_id = ''A'', stock = 5\<rparr>, \<lparr>offer_id = ''B'', stock = 100\<rparr>,
           \<lparr>offer_id = ''C'', stock = 0\<rparr>]"
  let ?mout = "map (as_market_stock ''w1'' ''2024-01-01T00:00:00Z'') ?out"
  have q: "stock_count \<lparr>kod = PStr ''A'', kolichestvo = PStr ''5'', tsena = PStr ''100.00''\<rparr> = Inr 5"
    "stock_count \<lparr>kod = PStr ''B'', kolichestvo = PStr ''>10'', tsena = PStr ''200.50''\<rparr> = Inr 100"
    "stock_count \<lparr>kod = PStr ''A'', kolichestvo = PStr ''9'', tsena = PStr ''100.00''\<rparr> = Inr 9"
    by (simp_all add: stock_count_def int_of_string_def is_ascii_def ascii_int_def int_max_str_digits_def py_strip_def is_space_def
        unsigned_value_def is_digit_def digit_val_def)
  then have all: "\<forall>w \<in> set ?ws. \<exists>n. stock_count w = Inr n" by simp
  have run: "create_stocks ?ws [''A'', ''B'', ''C''] = (Inr ?out, [''C''])"
    by (simp add: create_stocks_def q)
  then have mrun: "market_create_stocks ''2024-01-01T00:00:00Z'' ?ws [''A'', ''B'', ''C''] ''w1'' =
      (Inr ?mout, [''C''])"
    by (simp add: market_create_stocks_image)
  have d: "distinct [''A'', ''B'', ''C'']" by simp
  note inst = stocks_bijection [where ws = ?ws and ids = "[''A'', ''B'', ''C'']" and out = ?out
      and ids' = "[''C'']" and d = "''2024-01-01T00:00:00Z''" and wh = "''w1''" and mout = ?mout
      and ids'' = "[''C'']"]
  from inst run d have s1: "mset (map offer_id ?out) = mset [''A'', ''B'', ''C'']"
    and s2: "\<forall>i. count_list (map offer_id ?out) i = (if i \<in> set [''A'', ''B'', ''C''] then 1 else 0)"
    by blast+
  from inst mrun d have m1: "mset (map sku ?mout) = mset [''A'', ''B'', ''C'']"
    and m2: "\<forall>i. count_list (map sku ?mout) i = (if i \<in> set [''A'', ''B'', ''C''] then 1 else 0)"
    by blast+
  from inst all have "\<exists>out ids'. create_stocks ?ws [''A'', ''B'', ''C''] = (Inr out, ids')"
    by blast
  from s2 m2 have "count_list [''A'', ''B'', ''C''] ''A'' = 1" "count_list [''A'', ''B'', ''C''] ''D'' = 0"
    by simp_all
  with q run mrun d show ?thesis by simp
qed

text \<open>
  C7. Whenever \<open>create_prices\<close> returns its list, the offer ids of the list are the codes
  of the records whose code is among \<open>offer_ids\<close>, one entry for each such record, in feed
  order: every emitted id is among \<open>offer_ids\<close>, an id no record carries gets no entry, and a
  code the feed carries k times gets k entries. The same holds for market.py. seller.py
  returns its list whenever every price cell is a string. \<open>create_stocks\<close> differs: given
  ids without duplicates, it emits for a code one entry only, with the quantity of the
  first record carrying the code.
\<close>

theorem prices_sparse_not_deduplicated:
  "(create_prices ws ids = Inr out \<longrightarrow>
      map price_offer_id out =
        map (\<lambda>w. py_str (kod w)) (filter (\<lambda>w. py_str (kod w) \<in> set ids) ws) \<and>
      set (map price_offer_id out) \<subseteq> set ids \<and>
      (\<forall>c. count_list (map price_offer_id out) c =
         (if c \<in> set ids then count_list (map (\<lambda>w. py_str (kod w)) ws) c else 0))) \<and>
   (market_create_prices ws ids = Inr mout \<longrightarrow>
      map price_id mout =
        map (\<lambda>w. py_str (kod w)) (filter (\<lambda>w. py_str (kod w) \<in> set ids) ws) \<and>
      set (map price_id mout) \<subseteq> set ids \<and>
      (\<forall>c. count_list (map price_id mout) c =
         (if c \<in> set ids then count_list (map (\<lambda>w. py_str (kod w)) ws) c else 0))) \<and>
   ((\<forall>w \<in> set ws. \<exists>s. tsena w = PStr s) \<longrightarrow> (\<exists>out. create_prices ws ids = Inr out)) \<and>
   (distinct ids \<and> create_stocks (pre @ w # post) ids = (Inr st, ids') \<and>
    py_str (kod w) \<in> set ids \<and> (\<forall>v \<in> set pre. py_str (kod v) \<noteq> py_str (kod w)) \<longrightarrow>
      (\<exists>n. stock_count w = Inr n \<and> \<lparr>offer_id = py_str (kod w), stock = n\<rparr> \<in> set st) \<and>
      count_list (map offer_id st) (py_str (kod w)) = 1)"
proof -
  have shape: "\<And>xs. xs = map (\<lambda>w. py_str (kod w)) (filter (\<lambda>w. py_str (kod w) \<in> set ids) ws) \<Longrightarrow>
      set xs \<subseteq> set ids \<and>
      (\<forall>c. count_list xs c =
         (if c \<in> set ids then count_list (map (\<lambda>w. py_str (kod w)) ws) c else 0))"
    using count_list_matching [of "\<lambda>w. py_str (kod w)" "set ids" ws] by auto
  have seller: "create_prices ws ids = Inr out \<longrightarrow>
      map price_offer_id out =
        map (\<lambda>w. py_str (kod w)) (filter (\<lambda>w. py_str (kod w) \<in> set ids) ws) \<and>
      set (map price_offer_id out) \<subseteq> set ids \<and>
      (\<forall>c. count_list (map price_offer_id out) c =
         (if c \<in> set ids then count_list (map (\<lambda>w. py_str (kod w)) ws) c else 0))"
  proof
    assume "create_prices ws ids = Inr out"
    then have "map price_offer_id out =
        map (\<lambda>w. py_str (kod w)) (filter (\<lambda>w. py_str (kod w) \<in> set ids) ws)"
      using match_prices_ids [of ws "[]" ids out] by (simp add: create_prices_def)
    with shape [OF this] show "map price_offer_id out =
        map (\<lambda>w. py_str (kod w)) (filter (\<lambda>w. py_str (kod w) \<in> set ids) ws) \<and>
      set (map price_offer_id out) \<subseteq> set ids \<and>
      (\<forall>c. count_list (map price_offer_id out) c =
         (if c \<in> set ids then count_list (map (\<lambda>w. py_str (kod w)) ws) c else 0))"
      by blast
  qed
  have market: "market_create_prices ws ids = Inr mout \<longrightarrow>
      map price_id mout =
        map (\<lambda>w. py_str (kod w)) (filter (\<lambda>w. py_str (kod w) \<in> set ids) ws) \<and>
      set (map price_id mout) \<subseteq> set ids \<and>
      (\<forall>c. count_list (map price_id mout) c =
         (if c \<in> set ids then count_list (map (\<lambda>w. py_str (kod w)) ws) c else 0))"
  proof
    assume "market_create_prices ws ids = Inr mout"
    then have "map price_id mout =
        map (\<lambda>w. py_str (kod w)) (filter (\<lambda>w. py_str (kod w) \<in> set ids) ws)"
      using market_match_prices_ids [of ws "[]" ids mout] by (simp add: market_create_prices_def)
    with shape [OF this] show "map price_id mout =
        map (\<lambda>w. py_str (kod w)) (filter (\<lambda>w. py_str (kod w) \<in> set ids) ws) \<and>
      set (map price_id mout) \<subseteq> set ids \<and>
      (\<forall>c. count_list (map price_id mout) c =
         (if c \<in> set ids then count_list (map (\<lambda>w. py_str (kod w)) ws) c else 0))"
      by blast
  qed
  have total: "(\<forall>w \<in> set ws. \<exists>s. tsena w = PStr s) \<longrightarrow> (\<exists>out. create_prices ws ids = Inr out)"
    using match_prices_total [of ws "[]" ids] by (simp add: create_prices_def)
  have stocks: "distinct ids \<and> create_stocks (pre @ w # post) ids = (Inr st, ids') \<and>
    py_str (kod w) \<in> set ids \<and> (\<forall>v \<in> set pre. py_str (kod v) \<noteq> py_str (kod w)) \<longrightarrow>
      (\<exists>n. stock_count w = Inr n \<and> \<lparr>offer_id = py_str (kod w), stock = n\<rparr> \<in> set st) \<and>
      count_list (map offer_id st) (py_str (kod w)) = 1"
  proof
    assume a: "distinct ids \<and> create_stocks (pre @ w # post) ids = (Inr st, ids') \<and>
      py_str (kod w) \<in> set ids \<and> (\<forall>v \<in> set pre. py_str (kod v) \<noteq> py_str (kod w))"
    then obtain matched where m: "match_stocks (pre @ w # post) [] ids = (Inr matched, ids')"
      and st: "st = matched @ map (\<lambda>i. \<lparr>offer_id = i, stock = 0\<rparr>) ids'"
      using create_stocks_Inr by blast
    from match_stocks_first [OF m] a st
    have first: "\<exists>n. stock_count w = Inr n \<and> \<lparr>offer_id = py_str (kod w), stock = n\<rparr> \<in> set st"
      by auto
    have "mset (map offer_id st) = mset ids" using a create_stocks_mset by blast
    then have "count_list (map offer_id st) (py_str (kod w)) = count_list ids (py_str (kod w))"
      by (rule mset_eq_count_list)
    with a first show "(\<exists>n. stock_count w = Inr n \<and> \<lparr>offer_id = py_str (kod w), stock = n\<rparr> \<in> set st) \<and>
      count_list (map offer_id st) (py_str (kod w)) = 1"
      by (simp add: distinct_count_list)
  qed
  from seller market total stocks show ?thesis by blast
qed

theorem prices_sparse_not_deduplicated_witness:
  "create_prices
     [\<lparr>kod = PStr ''A'', kolichestvo = PStr ''5'', tsena = PStr ''100.00''\<rparr>,
      \<lparr>kod = PStr ''D'', kolichestvo = PStr ''>10'', tsena = PStr ''200.50''\<rparr>,
      \<lparr>kod = PStr ''A'', kolichestvo = PStr ''9'', tsena = PStr ''120.00''\<rparr>]
     [''A'', ''B''] =
     Inr [\<lparr>auto_action_enabled = ''UNKNOWN'', currency_code = ''RUB'', price_offer_id = ''A'',
           old_price = ''0'', price = ''100''\<rparr>,
          \<lparr>auto_action_enabled = ''UNKNOWN'', currency_code = ''RUB'', price_offer_id = ''A'',
           old_price = ''0'', price = ''120''\<rparr>] \<and>
   market_create_prices
     [\<lparr>kod = PStr ''A'', kolichestvo = PStr ''5'', tsena = PStr ''100.00''\<rparr>,
      \<lparr>kod = PStr ''D'', kolichestvo = PStr ''>10'', tsena = PStr ''200.50''\<rparr>,
      \<lparr>kod = PStr ''A'', kolichestvo = PStr ''9'', tsena = PStr ''120.00''\<rparr>]
     [''A'', ''B''] =
     Inr [\<lparr>price_id = ''A'', price_of = \<lparr>price_amount = 100, currencyId = ''RUR''\<rparr>\<rparr>,
          \<lparr>price_id = ''A'', price_of = \<lparr>price_amount = 120, currencyId = ''RUR''\<rparr>\<rparr>] \<and>
   create_stocks
     [\<lparr>kod = PStr ''A'', kolichestvo = PStr ''5'', tsena = PStr ''100.00''\<rparr>,
      \<lparr>kod = PStr ''D'', kolichestvo = PStr ''>10'', tsena = PStr ''200.50''\<rparr>,
      \<lparr>kod = PStr ''A'', kolichestvo = PStr ''9'', tsena = PStr ''120.00''\<rparr>]
     [''A'', ''B''] =
     (Inr [\<lparr>offer_id = ''A'', stock = 5\<rparr>, \<lparr>offer_id = ''B'', stock = 0\<rparr>], [''B'']) \<and>
   distinct [''A'', ''B''] \<and>
   count_list [''A'', ''A''] ''A'' = 2 \<and> count_list [''A'', ''A''] ''B'' = 0 \<and>
   count_list [''A'', ''A''] ''D'' = 0 \<and>
   count_list (map offer_id [\<lparr>offer_id = ''A'', stock = 5\<rparr>, \<lparr>offer_id = ''B'', stock = 0\<rparr>]) ''A'' = 1"
proof -
  let ?a = "\<lparr>kod = PStr ''A'', kolichestvo = PStr ''5'', tsena = PStr ''100.00''\<rparr>"
  let ?post = "[\<lparr>kod = PStr ''D'', kolichestvo = PStr ''>10'', tsena = PStr ''200.50''\<rparr>,
      \<lparr>kod = PStr ''A'', kolichestvo = PStr ''9'', tsena = PStr ''120.00''\<rparr>]"
  let ?ps = "[\<lparr>auto_action_enabled = ''UNKNOWN'', currency_code = ''RUB'', price_offer_id = ''A'',
           old_price = ''0'', price = ''100''\<rparr>,
          \<lparr>auto_action_enabled = ''UNKNOWN'', currency_code = ''RUB'', price_offer_id = ''A'',
           old_price = ''0'', price = ''120''\<rparr>]"
  let ?ms = "[\<lparr>price_id = ''A'', price_of = \<lparr>price_amount = 100, currencyId = ''RUR''\<rparr>\<rparr>,
          \<lparr>price_id = ''A'', price_of = \<lparr>price_amount = 120, currencyId = ''RUR''\<rparr>\<rparr>]"
  let ?st = "[\<lparr>offer_id = ''A'', stock = 5\<rparr>, \<lparr>offer_id = ''B'', stock = 0\<rparr>]"
  have p: "create_prices (?a # ?post) [''A'', ''B''] = Inr ?ps"
    by (simp add: create_prices_def price_conversion_str_def is_digit_def)
  have m: "market_create_prices (?a # ?post) [''A'', ''B''] = Inr ?ms"
    by (simp add: market_create_prices_def market_price_value_str int_max_str_digits_def price_conversion_str_def
        is_digit_def decimal_value_def digit_val_def)
  have s: "create_stocks ([] @ ?a # ?post) [''A'', ''B''] = (Inr ?st, [''B''])"
    by (simp add: create_stocks_def stock_count_def int_of_string_def is_ascii_def ascii_int_def int_max_str_digits_def
        py_strip_def is_space_def unsigned_value_def is_digit_def digit_val_def)
  have h: "distinct [''A'', ''B''] \<and> create_stocks ([] @ ?a # ?post) [''A'', ''B''] = (Inr ?st, [''B'']) \<and>
    py_str (kod ?a) \<in> set [''A'', ''B''] \<and> (\<forall>v \<in> set []. py_str (kod v) \<noteq> py_str (kod ?a))"
    using s by simp
  have t: "\<forall>w \<in> set (?a # ?post). \<exists>s. tsena w = PStr s" by simp
  note inst = prices_sparse_not_deduplicated [where ws = "?a # ?post" and ids = "[''A'', ''B'']"
      and out = ?ps and mout = ?ms and pre = "[]" and w = ?a and post = ?post and st = ?st
      and ids' = "[''B'']"]
  from inst p have c: "\<forall>c. count_list (map price_offer_id ?ps) c =
      (if c \<in> set [''A'', ''B''] then count_list (map (\<lambda>w. py_str (kod w)) (?a # ?post)) c else 0)"
    by blast
  from inst m have mc: "\<forall>c. count_list (map price_id ?ms) c =
      (if c \<in> set [''A'', ''B''] then count_list (map (\<lambda>w. py_str (kod w)) (?a # ?post)) c else 0)"
    by blast
  from inst t have "\<exists>out. create_prices (?a # ?post) [''A'', ''B''] = Inr out"
    by blast
  from inst h have one: "count_list (map offer_id ?st) (py_str (kod ?a)) = 1"
    by blast
  from c mc have "count_list [''A'', ''A''] ''A'' = 2" "count_list [''A'', ''A''] ''B'' = 0"
    "count_list [''A'', ''A''] ''D'' = 0"
    by simp_all
  with p m s one show ?thesis by simp
qed

text \<open>
  C10, as stated: in seller.py \<open>main\<close>, the price step emits no entry for a code that the
  stock step matched. With an offer id listed twice this fails: the stock step removes one
  occurrence only, and the price step finds the other.
\<close>

theorem price_after_stock_counterexample:
  "create_stocks [\<lparr>kod = PStr ''A'', kolichestvo = PStr ''5'', tsena = PStr ''100.00''\<rparr>]
     [''A'', ''A''] =
     (Inr [\<lparr>offer_id = ''A'', stock = 5\<rparr>, \<lparr>offer_id = ''A'', stock = 0\<rparr>], [''A'']) \<and>
   create_prices [\<lparr>kod = PStr ''A'', kolichestvo = PStr ''5'', tsena = PStr ''100.00''\<rparr>] [''A''] =
     Inr [\<lparr>auto_action_enabled = ''UNKNOWN'', currency_code = ''RUB'', price_offer_id = ''A'',
           old_price = ''0'', price = ''100''\<rparr>]"
  by (simp add: create_stocks_def create_prices_def stock_count_def int_of_string_def is_ascii_def ascii_int_def int_max_str_digits_def
      py_strip_def is_space_def unsigned_value_def is_digit_def digit_val_def
      price_conversion_str_def)

lemma dispatch_nothing: "0 < n \<Longrightarrow> dispatch send [] n reqs = (Inr (), reqs)"
  by (simp add: dispatch_def divide_def py_range.simps)

text \<open>
  C10, amended: in seller.py \<open>main\<close>, \<open>create_stocks\<close> removes from \<open>offer_ids\<close> one occurrence
  of the code of each record it matches, and the list so changed is the one \<open>create_prices\<close>
  reads. Hence the price step emits no entry for the code of a record when that code is
  listed at most once in \<open>offer_ids\<close>; when no offer id is listed twice, the price step
  emits nothing at all, and \<open>main\<close> issues no request after the stock requests.
\<close>

theorem price_after_stock:
  "(create_stocks ws ids = (Inr st, ids') \<and> create_prices ws ids' = Inr ps \<and>
    w \<in> set ws \<and> count_list ids (py_str (kod w)) \<le> 1 \<longrightarrow>
      py_str (kod w) \<notin> set (map price_offer_id ps)) \<and>
   (distinct ids \<and> create_stocks ws ids = (Inr st, ids') \<longrightarrow>
      create_prices ws ids' = Inr []) \<and>
   (distinct ids \<and> get_offer_ids oz [] = Some (Inr ids, reqs) \<and>
    create_stocks ws ids = (Inr st, ids') \<and>
    dispatch (update_stocks oz) st 100 reqs = (Inr (), reqs') \<longrightarrow>
      main_try oz (Inr ws) = Some (Inr (), reqs'))"
proof -
  have one: "create_stocks ws ids = (Inr st, ids') \<and> create_prices ws ids' = Inr ps \<and>
    w \<in> set ws \<and> count_list ids (py_str (kod w)) \<le> 1 \<longrightarrow>
      py_str (kod w) \<notin> set (map price_offer_id ps)"
  proof
    assume a: "create_stocks ws ids = (Inr st, ids') \<and> create_prices ws ids' = Inr ps \<and>
      w \<in> set ws \<and> count_list ids (py_str (kod w)) \<le> 1"
    then obtain matched where m: "match_stocks ws [] ids = (Inr matched, ids')"
      using create_stocks_Inr by blast
    from a have gone: "py_str (kod w) \<notin> set ids'"
      using match_stocks_single [OF m, of "py_str (kod w)"] by blast
    from a have "map price_offer_id ps =
        map (\<lambda>w. py_str (kod w)) (filter (\<lambda>w. py_str (kod w) \<in> set ids') ws)"
      using match_prices_ids [of ws "[]" ids' ps] by (simp add: create_prices_def)
    with gone show "py_str (kod w) \<notin> set (map price_offer_id ps)" by auto
  qed
  have none: "distinct ids \<and> create_stocks ws ids = (Inr st, ids') \<longrightarrow>
      create_prices ws ids' = Inr []"
  proof
    assume a: "distinct ids \<and> create_stocks ws ids = (Inr st, ids')"
    then obtain matched where m: "match_stocks ws [] ids = (Inr matched, ids')"
      using create_stocks_Inr by blast
    from a have "\<forall>w \<in> set ws. py_str (kod w) \<notin> set ids'"
      using match_stocks_depleted [OF _ m] by blast
    then show "create_prices ws ids' = Inr []"
      by (simp add: create_prices_def match_prices_unmatched)
  qed
  have run: "distinct ids \<and> get_offer_ids oz [] = Some (Inr ids, reqs) \<and>
    create_stocks ws ids = (Inr st, ids') \<and>
    dispatch (update_stocks oz) st 100 reqs = (Inr (), reqs') \<longrightarrow>
      main_try oz (Inr ws) = Some (Inr (), reqs')"
  proof
    assume a: "distinct ids \<and> get_offer_ids oz [] = Some (Inr ids, reqs) \<and>
      create_stocks ws ids = (Inr st, ids') \<and>
      dispatch (update_stocks oz) st 100 reqs = (Inr (), reqs')"
    with none have "create_prices ws ids' = Inr []" by blast
    with a show "main_try oz (Inr ws) = Some (Inr (), reqs')"
      by (simp add: main_try_def dispatch_nothing)
  qed
  from one none run show ?thesis by blast
qed

theorem price_after_stock_witness:
  "get_offer_ids two_page_shop [] =
     Some (Inr [''A'', ''B''], [ProductList [], ProductList ''A'']) \<and>
   distinct [''A'', ''B''] \<and> count_list [''A'', ''B''] ''A'' \<le> 1 \<and>
   create_stocks [\<lparr>kod = PStr ''A'', kolichestvo = PStr ''5'', tsena = PStr ''100.00''\<rparr>]
     [''A'', ''B''] =
     (Inr [\<lparr>offer_id = ''A'', stock = 5\<rparr>, \<lparr>offer_id = ''B'', stock = 0\<rparr>], [''B'']) \<and>
   create_prices [\<lparr>kod = PStr ''A'', kolichestvo = PStr ''5'', tsena = PStr ''100.00''\<rparr>] [''B''] =
     Inr [] \<and>
   ''A'' \<notin> set (map price_offer_id []) \<and>
   main_try two_page_shop
     (Inr [\<lparr>kod = PStr ''A'', kolichestvo = PStr ''5'', tsena = PStr ''100.00''\<rparr>]) =
     Some (Inr (), [ProductList [], ProductList ''A'',
       ImportStocks [\<lparr>offer_id = ''A'', stock = 5\<rparr>, \<lparr>offer_id = ''B'', stock = 0\<rparr>]])"
proof -
  let ?a = "\<lparr>kod = PStr ''A'', kolichestvo = PStr ''5'', tsena = PStr ''100.00''\<rparr>"
  let ?st = "[\<lparr>offer_id = ''A'', stock = 5\<rparr>, \<lparr>offer_id = ''B'', stock = 0\<rparr>]"
  let ?reqs = "[ProductList [], ProductList ''A'']"
  have g: "get_offer_ids two_page_shop [] = Some (Inr [''A'', ''B''], ?reqs)"
    by (simp add: get_offer_ids_def fetch_products.simps get_product_list_def two_page_shop_def)
  have s: "create_stocks [?a] [''A'', ''B''] = (Inr ?st, [''B''])"
    by (simp add: create_stocks_def stock_count_def int_of_string_def is_ascii_def ascii_int_def int_max_str_digits_def
        py_strip_def is_space_def unsigned_value_def is_digit_def digit_val_def)
  have u: "dispatch (update_stocks two_page_shop) ?st 100 ?reqs =
      (Inr (), ?reqs @ [ImportStocks ?st])"
    by (simp add: dispatch_def divide_def py_range.simps update_stocks_def two_page_shop_def)
  have d: "distinct [''A'', ''B'']" and c: "count_list [''A'', ''B''] (py_str (kod ?a)) \<le> 1"
    by simp_all
  note inst = price_after_stock [where ws = "[?a]" and ids = "[''A'', ''B'']" and st = ?st
      and ids' = "[''B'']" and ps = "[]" and w = ?a and oz = two_page_shop
      and reqs = ?reqs and reqs' = "?reqs @ [ImportStocks ?st]"]
  from inst d s have p: "create_prices [?a] [''B''] = Inr []" by blast
  from inst s p c have n: "py_str (kod ?a) \<notin> set (map price_offer_id [])" by simp
  from inst d g s u have m: "main_try two_page_shop (Inr [?a]) = Some (Inr (), ?reqs @ [ImportStocks ?st])"
    by blast
  from g s p n m show ?thesis by simp
qed

section \<open>The chunker\<close>

lemma concat_chunks_from:
  "0 < n \<Longrightarrow> concat (map (\<lambda>j. take n (drop j lst)) (py_range i (length lst) n)) = drop i lst"
proof (induction i "length lst" n rule: py_range.induct)
  case (1 i step)
  show ?case
  proof (cases "length lst \<le> i")
    case True
    then show ?thesis by (simp add: py_range.simps)
  next
    case False
    have "take step (drop i lst) @ drop (i + step) lst = drop i lst"
      by (metis add.commute append_take_drop_id drop_drop)
    with False 1 show ?thesis
      by (subst py_range.simps) simp
  qed
qed

lemma py_range_empty: "0 < n \<Longrightarrow> py_range i stop n = [] \<longleftrightarrow> stop \<le> i"
  by (subst py_range.simps) simp

lemma butlast_py_range:
  "0 < n \<Longrightarrow> j \<in> set (butlast (py_range i stop n)) \<Longrightarrow> j + n < stop"
proof (induction i stop n rule: py_range.induct)
  case (1 i stop step)
  have unfold: "py_range i stop step = (if stop \<le> i then [] else i # py_range (i + step) stop step)"
    using 1(2) by (subst py_range.simps) simp
  show ?case
  proof (cases "stop \<le> i")
    case True
    with 1(3) unfold show ?thesis by simp
  next
    case False
    show ?thesis
    proof (cases "stop \<le> i + step")
      case True
      then have "py_range (i + step) stop step = []"
        using 1(2) by (simp add: py_range_empty)
      with False 1(3) unfold show ?thesis by simp
    next
      case far: False
      then have ne: "py_range (i + step) stop step \<noteq> []"
        using 1(2) by (simp add: py_range_empty)
      from 1(3) False ne unfold
      have "j = i \<or> j \<in> set (butlast (py_range (i + step) stop step))"
        by simp
      with 1 False far show ?thesis by auto
    qed
  qed
qed

lemma last_py_range:
  "0 < n \<Longrightarrow> i < stop \<Longrightarrow>
     last (py_range i stop n) < stop \<and>
     stop - last (py_range i stop n) = (if (stop - i) mod n = 0 then n else (stop - i) mod n)"
proof (induction i stop n rule: py_range.induct)
  case (1 i stop step)
  have unfold: "py_range i stop step = i # py_range (i + step) stop step"
    using 1(2,3) by (subst py_range.simps) simp
  show ?case
  proof (cases "stop \<le> i + step")
    case True
    then have e: "py_range (i + step) stop step = []"
      using 1(2) by (simp add: py_range_empty)
    have l: "last (py_range i stop step) = i"
      using e unfold by simp
    have "stop - i \<le> step" using True by simp
    moreover have "0 < stop - i" using 1 by simp
    ultimately have "(if (stop - i) mod step = 0 then step else (stop - i) mod step) = stop - i"
      by (cases "stop - i = step") auto
    with l 1 show ?thesis by simp
  next
    case False
    then have ne: "py_range (i + step) stop step \<noteq> []"
      using 1(2) by (simp add: py_range_empty)
    have l: "last (py_range i stop step) = last (py_range (i + step) stop step)"
      using ne unfold by simp
    have "stop - i = (stop - (i + step)) + step" using False by simp
    then have m: "(stop - (i + step)) mod step = (stop - i) mod step"
      by (metis mod_add_self2)
    from 1 False have "last (py_range (i + step) stop step) < stop \<and>
       stop - last (py_range (i + step) stop step)
         = (if (stop - (i + step)) mod step = 0 then step else (stop - (i + step)) mod step)"
      by simp
    with l m show ?thesis by simp
  qed
qed

text \<open>
  C5. For every list and every \<open>n > 0\<close>, \<open>list(divide(lst, n))\<close> returns chunks whose
  concatenation, in order, is the list itself; every chunk but the last has length \<open>n\<close>,
  and the last has length \<open>len(lst) mod n\<close>, or \<open>n\<close> when \<open>n\<close> divides \<open>len(lst)\<close>.
  (The empty list gives no chunk at all.)
\<close>

theorem divide_chunks:
  "0 < n \<Longrightarrow>
     (\<exists>chunks. divide lst n = Inr chunks \<and> concat chunks = lst \<and>
        (\<forall>c \<in> set (butlast chunks). length c = nat n) \<and>
        (chunks = [] \<longleftrightarrow> lst = []) \<and>
        (chunks \<noteq> [] \<longrightarrow>
           length (last chunks) =
             (if length lst mod nat n = 0 then nat n else length lst mod nat n)))"
proof -
  assume n: "0 < n"
  define m where "m = nat n"
  define r where "r = py_range 0 (length lst) m"
  define chunks where "chunks = map (\<lambda>j. take m (drop j lst)) r"
  have m: "0 < m" using n by (simp add: m_def)
  have d: "divide lst n = Inr chunks"
    using n by (simp add: divide_def chunks_def r_def m_def)
  have c: "concat chunks = lst"
    using concat_chunks_from [OF m, of lst 0] by (simp add: chunks_def r_def)
  have e: "chunks = [] \<longleftrightarrow> lst = []"
    using py_range_empty [OF m, of 0 "length lst"] by (simp add: chunks_def r_def)
  have b: "\<forall>c \<in> set (butlast chunks). length c = m"
  proof
    fix c assume "c \<in> set (butlast chunks)"
    then obtain j where j: "j \<in> set (butlast r)" and cj: "c = take m (drop j lst)"
      by (auto simp: chunks_def map_butlast [symmetric])
    from butlast_py_range [OF m] j have "j + m < length lst" by (simp add: r_def)
    with cj show "length c = m" by simp
  qed
  have l: "chunks \<noteq> [] \<longrightarrow>
      length (last chunks) = (if length lst mod m = 0 then m else length lst mod m)"
  proof
    assume "chunks \<noteq> []"
    with e have pos: "0 < length lst" by simp
    then have rne: "r \<noteq> []" using py_range_empty [OF m, of 0 "length lst"] by (simp add: r_def)
    from last_py_range [OF m pos] have
      v: "length lst - last r = (if length lst mod m = 0 then m else length lst mod m)"
      by (simp_all add: r_def)
    have "last chunks = take m (drop (last r) lst)"
      using rne by (simp add: chunks_def last_map)
    then have "length (last chunks) = min (length lst - last r) m" by simp
    also have "\<dots> = (if length lst mod m = 0 then m else length lst mod m)"
      using v m by (auto simp: min_def)
    finally show "length (last chunks) = (if length lst mod m = 0 then m else length lst mod m)" .
  qed
  from d c e b l show ?thesis unfolding m_def by blast
qed

theorem divide_chunks_witness:
  "(0::int) < 2 \<and> divide [1, 2, 3, 4, 5 :: nat] 2 = Inr [[1, 2], [3, 4], [5]]"
  using divide_chunks [of 2 "[1, 2, 3, 4, 5 :: nat]"]
  by (simp add: divide_def py_range.simps)

text \<open>
  C6, as stated: for every size \<open>\<le> 0\<close> the chunker fails and produces no chunks. It does
  not fail for a negative size: \<open>range(0, len(lst), -1)\<close> is empty, so the generator ends at
  once, with no chunk and no error.
\<close>

theorem divide_negative_counterexample:
  "(- 1 :: int) \<le> 0 \<and> divide [1, 2, 3 :: nat] (- 1) = Inr []"
  by (simp add: divide_def)

text \<open>
  C6, amended: for size 0 the chunker fails (ValueError, raised by \<open>range\<close>) and produces
  no chunks; for every negative size it produces no chunks and does not fail.
\<close>

theorem divide_nonpositive:
  "divide lst 0 = Inl ValueError \<and> (n < 0 \<longrightarrow> divide lst n = Inr [])"
  by (simp add: divide_def)

theorem divide_nonpositive_witness:
  "divide [1, 2, 3 :: nat] 0 = Inl ValueError \<and> (- 2 :: int) < 0 \<and>
   divide [1, 2, 3 :: nat] (- 2) = Inr []"
  using divide_nonpositive [of "[1, 2, 3 :: nat]" "- 2"] by simp

section \<open>Fetching the catalog\<close>

lemma fetch_products_pages:
  "serves oz reqs lastid ps \<Longrightarrow> incomplete (length acc) ps \<Longrightarrow>
     fetch_products oz lastid acc reqs =
       fetch_products oz (last (lastid # map last_id ps)) (acc @ concat (map items ps))
         (reqs @ map ProductList (butlast (lastid # map last_id ps)))"
proof (induction ps arbitrary: reqs lastid acc)
  case Nil
  then show ?case by simp
next
  case (Cons p ps)
  from Cons.prems have a: "product_list_answer oz reqs lastid = Inr p"
    and s: "serves oz (reqs @ [ProductList lastid]) (last_id p) ps"
    and t: "total p \<noteq> int (length (acc @ items p))"
    and i: "incomplete (length (acc @ items p)) ps" by simp_all
  have "fetch_products oz lastid acc reqs =
      fetch_products oz (last_id p) (acc @ items p) (reqs @ [ProductList lastid])"
    using a t by (subst fetch_products.simps) (simp add: get_product_list_def)
  also have "\<dots> = fetch_products oz (last (last_id p # map last_id ps))
      ((acc @ items p) @ concat (map items ps))
      ((reqs @ [ProductList lastid]) @ map ProductList (butlast (last_id p # map last_id ps)))"
    using Cons.IH [OF s i] .
  finally show ?case by simp
qed

lemma serves_append:
  "serves oz reqs lastid (ps @ [p]) \<longleftrightarrow>
     serves oz reqs lastid ps \<and>
     product_list_answer oz (reqs @ map ProductList (butlast (lastid # map last_id ps)))
       (last (lastid # map last_id ps)) = Inr p"
  by (induction ps arbitrary: reqs lastid) auto

lemma fetch_entries_pages:
  "market_serves mk c reqs page ps \<Longrightarrow> all_continue ps \<Longrightarrow>
     fetch_entries mk c page acc reqs =
       fetch_entries mk c (last (page # map next_page ps))
         (acc @ concat (map offerMappingEntries ps))
         (reqs @ map (OfferMappingEntries c) (butlast (page # map next_page ps)))"
proof (induction ps arbitrary: reqs page acc)
  case Nil
  then show ?case by simp
next
  case (Cons p ps)
  from Cons.prems have a: "offer_mapping_answer mk reqs c page = Inr p"
    and s: "market_serves mk c (reqs @ [OfferMappingEntries c page]) (next_page p) ps"
    and t: "next_page p \<noteq> []"
    and i: "all_continue ps" by simp_all
  have "fetch_entries mk c page acc reqs =
      fetch_entries mk c (next_page p) (acc @ offerMappingEntries p)
        (reqs @ [OfferMappingEntries c page])"
    using a t by (subst fetch_entries.simps)
      (simp add: market_get_product_list_def next_page_def split: option.splits)
  also have "\<dots> = fetch_entries mk c (last (next_page p # map next_page ps))
      ((acc @ offerMappingEntries p) @ concat (map offerMappingEntries ps))
      ((reqs @ [OfferMappingEntries c page]) @
        map (OfferMappingEntries c) (butlast (next_page p # map next_page ps)))"
    using Cons.IH [OF s i] .
  finally show ?case by simp
qed

lemma market_serves_append:
  "market_serves mk c reqs page (ps @ [p]) \<longleftrightarrow>
     market_serves mk c reqs page ps \<and>
     offer_mapping_answer mk (reqs @ map (OfferMappingEntries c) (butlast (page # map next_page ps))) c
       (last (page # map next_page ps)) = Inr p"
  by (induction ps arbitrary: reqs page) auto

lemma cursors: "butlast (x # xs) @ [last (x # xs)] = x # xs"
  by (rule append_butlast_last_id) simp

lemma get_offer_ids_complete:
  assumes "serves oz reqs [] (ps @ [p])" and "incomplete 0 ps"
    and "total p = int (length (concat (map items (ps @ [p]))))"
  shows "get_offer_ids oz reqs =
     Some (Inr (map product_offer_id (concat (map items (ps @ [p])))),
           reqs @ map ProductList ([] # map last_id ps))"
proof -
  let ?reqs = "reqs @ map ProductList (butlast ([] # map last_id ps))"
  let ?cur = "last ([] # map last_id ps)"
  from assms(1) have s: "serves oz reqs [] ps" and a: "product_list_answer oz ?reqs ?cur = Inr p"
    by (simp_all only: serves_append)
  have "fetch_products oz [] [] reqs = fetch_products oz ?cur (concat (map items ps)) ?reqs"
    using fetch_products_pages [OF s, of "[]"] assms(2) by simp
  also have "\<dots> = Some (Inr (concat (map items ps) @ items p), ?reqs @ [ProductList ?cur])"
    using a assms(3) by (subst fetch_products.simps) (simp add: get_product_list_def)
  also have "?reqs @ [ProductList ?cur] = reqs @ map ProductList ([] # map last_id ps)"
    using cursors [of "[]" "map last_id ps"] by (metis append_assoc list.simps(8,9) map_append)
  finally show ?thesis by (simp add: get_offer_ids_def)
qed

lemma get_offer_ids_error:
  assumes "serves oz reqs [] ps" and "incomplete 0 ps"
    and "product_list_answer oz (reqs @ map ProductList (butlast ([] # map last_id ps)))
       (last ([] # map last_id ps)) = Inl e"
  shows "get_offer_ids oz reqs = Some (Inl e, reqs @ map ProductList ([] # map last_id ps))"
proof -
  let ?reqs = "reqs @ map ProductList (butlast ([] # map last_id ps))"
  let ?cur = "last ([] # map last_id ps)"
  have "fetch_products oz [] [] reqs = fetch_products oz ?cur (concat (map items ps)) ?reqs"
    using fetch_products_pages [OF assms(1), of "[]"] assms(2) by simp
  also have "\<dots> = Some (Inl e, ?reqs @ [ProductList ?cur])"
    using assms(3) by (subst fetch_products.simps) (simp add: get_product_list_def)
  also have "?reqs @ [ProductList ?cur] = reqs @ map ProductList ([] # map last_id ps)"
    using cursors [of "[]" "map last_id ps"] by (metis append_assoc list.simps(8,9) map_append)
  finally show ?thesis by (simp add: get_offer_ids_def)
qed

lemma market_get_offer_ids_complete:
  assumes "market_serves mk c reqs [] (ps @ [p])" and "all_continue ps" and "next_page p = []"
  shows "market_get_offer_ids mk c reqs =
     Some (Inr (map shopSku (concat (map offerMappingEntries (ps @ [p])))),
           reqs @ map (OfferMappingEntries c) ([] # map next_page ps))"
proof -
  let ?reqs = "reqs @ map (OfferMappingEntries c) (butlast ([] # map next_page ps))"
  let ?cur = "last ([] # map next_page ps)"
  from assms(1) have s: "market_serves mk c reqs [] ps"
    and a: "offer_mapping_answer mk ?reqs c ?cur = Inr p"
    by (simp_all only: market_serves_append)
  have "fetch_entries mk c [] [] reqs =
      fetch_entries mk c ?cur (concat (map offerMappingEntries ps)) ?reqs"
    using fetch_entries_pages [OF s assms(2), of "[]"] by simp
  also have "\<dots> = Some (Inr (concat (map offerMappingEntries ps) @ offerMappingEntries p),
      ?reqs @ [OfferMappingEntries c ?cur])"
    using a assms(3) by (subst fetch_entries.simps)
      (simp add: market_get_product_list_def next_page_def split: option.splits)
  also have "?reqs @ [OfferMappingEntries c ?cur] =
      reqs @ map (OfferMappingEntries c) ([] # map next_page ps)"
    using cursors [of "[]" "map next_page ps"] by (metis append_assoc list.simps(8,9) map_append)
  finally show ?thesis by (simp add: market_get_offer_ids_def)
qed

lemma market_get_offer_ids_error:
  assumes "market_serves mk c reqs [] ps" and "all_continue ps"
    and "offer_mapping_answer mk (reqs @ map (OfferMappingEntries c) (butlast ([] # map next_page ps))) c
       (last ([] # map next_page ps)) = Inl e"
  shows "market_get_offer_ids mk c reqs =
     Some (Inl e, reqs @ map (OfferMappingEntries c) ([] # map next_page ps))"
proof -
  let ?reqs = "reqs @ map (OfferMappingEntries c) (butlast ([] # map next_page ps))"
  let ?cur = "last ([] # map next_page ps)"
  have "fetch_entries mk c [] [] reqs =
      fetch_entries mk c ?cur (concat (map offerMappingEntries ps)) ?reqs"
    using fetch_entries_pages [OF assms(1,2), of "[]"] by simp
  also have "\<dots> = Some (Inl e, ?reqs @ [OfferMappingEntries c ?cur])"
    using assms(3) by (subst fetch_entries.simps) (simp add: market_get_product_list_def)
  also have "?reqs @ [OfferMappingEntries c ?cur] =
      reqs @ map (OfferMappingEntries c) ([] # map next_page ps)"
    using cursors [of "[]" "map next_page ps"] by (metis append_assoc list.simps(8,9) map_append)
  finally show ?thesis by (simp add: market_get_offer_ids_def)
qed

text \<open>
  C8. seller.py \<open>get_offer_ids\<close> goes on fetching while the number of items fetched differs
  from the total the last page declares, and stops at the first page where they are equal:
  it then returns the offer ids of all items fetched, having issued one request for each
  page and none after. A first page with no items and total 0 gives the empty list, after
  one request. A page fetch that raises a transport error ends the call with that error
  (the specification's PaginationError); the failing request is issued once. market.py
  \<open>get_offer_ids\<close> stops at the first page without a next page token, gives the empty list
  for an empty first page without token, and passes a transport error on in the same way.
\<close>

theorem catalog_pagination:
  "(serves oz reqs [] (ps @ [p]) \<and> incomplete 0 ps \<and>
    total p = int (length (concat (map items (ps @ [p])))) \<longrightarrow>
      get_offer_ids oz reqs =
        Some (Inr (map product_offer_id (concat (map items (ps @ [p])))),
              reqs @ map ProductList ([] # map last_id ps))) \<and>
   (product_list_answer oz reqs [] = Inr p \<and> items p = [] \<and> total p = 0 \<longrightarrow>
      get_offer_ids oz reqs = Some (Inr [], reqs @ [ProductList []])) \<and>
   (serves oz reqs [] ps \<and> incomplete 0 ps \<and>
    product_list_answer oz (reqs @ map ProductList (butlast ([] # map last_id ps)))
      (last ([] # map last_id ps)) = Inl e \<longrightarrow>
      get_offer_ids oz reqs = Some (Inl e, reqs @ map ProductList ([] # map last_id ps))) \<and>
   (market_serves mk c mreqs [] (ms @ [m]) \<and> all_continue ms \<and> next_page m = [] \<longrightarrow>
      market_get_offer_ids mk c mreqs =
        Some (Inr (map shopSku (concat (map offerMappingEntries (ms @ [m])))),
              mreqs @ map (OfferMappingEntries c) ([] # map next_page ms))) \<and>
   (offer_mapping_answer mk mreqs c [] = Inr m \<and> offerMappingEntries m = [] \<and>
    next_page m = [] \<longrightarrow>
      market_get_offer_ids mk c mreqs = Some (Inr [], mreqs @ [OfferMappingEntries c []])) \<and>
   (market_serves mk c mreqs [] ms \<and> all_continue ms \<and>
    offer_mapping_answer mk (mreqs @ map (OfferMappingEntries c) (butlast ([] # map next_page ms))) c
      (last ([] # map next_page ms)) = Inl e \<longrightarrow>
      market_get_offer_ids mk c mreqs =
        Some (Inl e, mreqs @ map (OfferMappingEntries c) ([] # map next_page ms)))"
proof -
  have empty: "product_list_answer oz reqs [] = Inr p \<and> items p = [] \<and> total p = 0 \<longrightarrow>
      get_offer_ids oz reqs = Some (Inr [], reqs @ [ProductList []])"
    using get_offer_ids_complete [of oz reqs "[]" p] by simp
  have market_empty: "offer_mapping_answer mk mreqs c [] = Inr m \<and> offerMappingEntries m = [] \<and>
    next_page m = [] \<longrightarrow>
      market_get_offer_ids mk c mreqs = Some (Inr [], mreqs @ [OfferMappingEntries c []])"
    using market_get_offer_ids_complete [of mk c mreqs "[]" m] by simp
  from empty market_empty show ?thesis
    using get_offer_ids_complete [of oz reqs ps p] get_offer_ids_error [of oz reqs ps e]
      market_get_offer_ids_complete [of mk c mreqs ms m]
      market_get_offer_ids_error [of mk c mreqs ms e]
    by blast
qed

theorem catalog_pagination_witness:
  "get_offer_ids two_page_shop [] =
     Some (Inr [''A'', ''B''], [ProductList [], ProductList ''A'']) \<and>
   get_offer_ids empty_shop [] = Some (Inr [], [ProductList []]) \<and>
   get_offer_ids failing_shop [] = Some (Inl HTTPError, [ProductList [], ProductList ''A'']) \<and>
   market_get_offer_ids two_page_market ''fbs'' [] =
     Some (Inr [''A'', ''B''], [OfferMappingEntries ''fbs'' [], OfferMappingEntries ''fbs'' ''t1'']) \<and>
   market_get_offer_ids empty_market ''fbs'' [] =
     Some (Inr [], [OfferMappingEntries ''fbs'' []]) \<and>
   market_get_offer_ids failing_market ''fbs'' [] =
     Some (Inl ConnectionError, [OfferMappingEntries ''fbs'' [], OfferMappingEntries ''fbs'' ''t1''])"
proof -
  let ?p1 = "\<lparr>items = [\<lparr>product_offer_id = ''A''\<rparr>], total = 2, last_id = ''A''\<rparr>"
  let ?p2 = "\<lparr>items = [\<lparr>product_offer_id = ''B''\<rparr>], total = 2, last_id = ''B''\<rparr>"
  let ?p0 = "\<lparr>items = [], total = 0, last_id = []\<rparr>"
  let ?m1 = "\<lparr>offerMappingEntries = [\<lparr>shopSku = ''A''\<rparr>], nextPageToken = Some ''t1''\<rparr>"
  let ?m2 = "\<lparr>offerMappingEntries = [\<lparr>shopSku = ''B''\<rparr>], nextPageToken = None\<rparr>"
  let ?m0 = "\<lparr>offerMappingEntries = [], nextPageToken = Some []\<rparr>"
  have h1: "serves two_page_shop [] [] ([?p1] @ [?p2]) \<and> incomplete 0 [?p1] \<and>
      total ?p2 = int (length (concat (map items ([?p1] @ [?p2]))))"
    by (simp add: two_page_shop_def)
  have h2: "product_list_answer empty_shop [] [] = Inr ?p0 \<and> items ?p0 = [] \<and> total ?p0 = 0"
    by (simp add: empty_shop_def)
  have h3: "serves failing_shop [] [] [?p1] \<and> incomplete 0 [?p1] \<and>
      product_list_answer failing_shop ([] @ map ProductList (butlast ([] # map last_id [?p1])))
        (last ([] # map last_id [?p1])) = Inl HTTPError"
    by (simp add: failing_shop_def)
  have h4: "market_serves two_page_market ''fbs'' [] [] ([?m1] @ [?m2]) \<and> all_continue [?m1] \<and>
      next_page ?m2 = []"
    by (simp add: two_page_market_def next_page_def)
  have h5: "offer_mapping_answer empty_market [] ''fbs'' [] = Inr ?m0 \<and>
      offerMappingEntries ?m0 = [] \<and> next_page ?m0 = []"
    by (simp add: empty_market_def next_page_def)
  have h6: "market_serves failing_market ''fbs'' [] [] [?m1] \<and> all_continue [?m1] \<and>
      offer_mapping_answer failing_market
        ([] @ map (OfferMappingEntries ''fbs'') (butlast ([] # map next_page [?m1]))) ''fbs''
        (last ([] # map next_page [?m1])) = Inl ConnectionError"
    by (simp add: failing_market_def next_page_def)
  from h1 h4 catalog_pagination [where oz = two_page_shop and reqs = "[]" and ps = "[?p1]"
      and p = ?p2 and mk = two_page_market and c = "''fbs''" and mreqs = "[]" and ms = "[?m1]"
      and m = ?m2]
  have r1: "get_offer_ids two_page_shop [] =
      Some (Inr [''A'', ''B''], [ProductList [], ProductList ''A''])"
    and r4: "market_get_offer_ids two_page_market ''fbs'' [] =
      Some (Inr [''A'', ''B''], [OfferMappingEntries ''fbs'' [], OfferMappingEntries ''fbs'' ''t1''])"
    by (simp_all add: next_page_def)
  from h2 h5 catalog_pagination [where oz = empty_shop and reqs = "[]" and p = ?p0
      and mk = empty_market and c = "''fbs''" and mreqs = "[]" and m = ?m0
      and ps = "[]" and ms = "[]" and e = HTTPError]
  have r2: "get_offer_ids empty_shop [] = Some (Inr [], [ProductList []])"
    and r5: "market_get_offer_ids empty_market ''fbs'' [] =
      Some (Inr [], [OfferMappingEntries ''fbs'' []])"
    by simp_all
  from h3 h6 catalog_pagination [where oz = failing_shop and reqs = "[]" and ps = "[?p1]"
      and e = HTTPError]
    catalog_pagination [where mk = failing_market and c = "''fbs''" and mreqs = "[]"
      and ms = "[?m1]" and e = ConnectionError]
  have r3: "get_offer_ids failing_shop [] =
      Some (Inl HTTPError, [ProductList [], ProductList ''A''])"
    and r6: "market_get_offer_ids failing_market ''fbs'' [] =
      Some (Inl ConnectionError, [OfferMappingEntries ''fbs'' [], OfferMappingEntries ''fbs'' ''t1''])"
    by (simp_all add: next_page_def)
  from r1 r2 r3 r4 r5 r6 show ?thesis by blast
qed

section \<open>The orchestrator of market.py\<close>

lemma fetch_entries_requests_snd:
  assumes "fetch_entries mk c page acc reqs = Some y"
  shows "filter is_post_prices (snd y) = filter is_post_prices reqs"
  using assms
proof (induction rule: fetch_entries.raw_induct [rotated 1, consumes 1])
  case (1 f mk c page acc reqs y)
  show ?case
  proof (cases "offer_mapping_answer mk reqs c page")
    case (Inl e)
    with 1(2) show ?thesis by (auto simp: market_get_product_list_def)
  next
    case (Inr p)
    show ?thesis
    proof (cases "next_page p = []")
      case True
      with Inr 1(2) show ?thesis
        by (auto simp: market_get_product_list_def next_page_def split: option.splits if_splits)
    next
      case False
      with Inr 1(2) have "f mk c (next_page p) (acc @ offerMappingEntries p)
          (reqs @ [OfferMappingEntries c page]) = Some y"
        by (auto simp: market_get_product_list_def next_page_def split: option.splits if_splits)
      from 1(1) [OF this] show ?thesis by simp
    qed
  qed
qed

lemma fetch_entries_requests:
  "fetch_entries mk c page acc reqs = Some (r, reqs') \<Longrightarrow>
     filter is_post_prices reqs' = filter is_post_prices reqs"
  using fetch_entries_requests_snd [of mk c page acc reqs "(r, reqs')"] by simp

lemma market_get_offer_ids_requests:
  "market_get_offer_ids mk c reqs = Some (r, reqs') \<Longrightarrow>
     filter is_post_prices reqs' = filter is_post_prices reqs"
  by (auto simp: market_get_offer_ids_def split: option.splits sum.splits prod.splits
      dest: fetch_entries_requests)

lemma for_each_stocks_requests:
  "for_each (market_update_stocks mk c) chunks reqs = (r, reqs') \<Longrightarrow>
     filter is_post_prices reqs' = filter is_post_prices reqs"
proof (induction chunks arbitrary: reqs)
  case Nil
  then show ?case by simp
next
  case (Cons chunk chunks)
  have st: "market_update_stocks mk c chunk reqs =
      (put_stocks_answer mk reqs c chunk, reqs @ [PutStocks c chunk])"
    by (simp add: market_update_stocks_def)
  show ?case
  proof (cases "put_stocks_answer mk reqs c chunk")
    case (Inl e)
    with Cons.prems show ?thesis by (auto simp: st)
  next
    case (Inr u)
    with Cons.prems have "for_each (market_update_stocks mk c) chunks (reqs @ [PutStocks c chunk])
        = (r, reqs')" by (simp add: st)
    from Cons.IH [OF this] show ?thesis by simp
  qed
qed

lemma dispatch_stocks_requests:
  "dispatch (market_update_stocks mk c) stocks n reqs = (r, reqs') \<Longrightarrow>
     filter is_post_prices reqs' = filter is_post_prices reqs"
  by (auto simp: dispatch_def split: sum.splits dest: for_each_stocks_requests)

lemma market_main_try_requests:
  assumes "market_main_try mk env date_fbs date_dbs watch_remnants = Some (r, reqs)"
  shows "filter is_post_prices reqs = []"
proof -
  note g = market_get_offer_ids_requests and d = dispatch_stocks_requests
  from assms show ?thesis
    unfolding market_main_try_def upload_prices_def
    by (auto split: option.splits sum.splits prod.splits dest!: g d)
qed

lemma market_main_requests:
  "market_main mk env date_fbs date_dbs download = Some (r, reqs) \<Longrightarrow>
     filter is_post_prices reqs = []"
  by (auto simp: market_main_def split: option.splits sum.splits prod.splits
      dest: market_main_try_requests)

lemma one_page_offer_ids:
  "market_get_offer_ids one_page_market c reqs =
     Some (Inr [''A''], reqs @ [OfferMappingEntries c []])"
  by (simp add: market_get_offer_ids_def fetch_entries.simps market_get_product_list_def
      one_page_market_def)

lemma one_page_stocks:
  "market_create_stocks d [\<lparr>kod = PStr ''A'', kolichestvo = PStr ''5'', tsena = PStr ''100.00''\<rparr>]
     [''A''] wh =
     (Inr [\<lparr>sku = ''A'', warehouseId = wh,
            stock_items = [\<lparr>item_count = 5, item_type = ''FIT'', updatedAt = d\<rparr>]\<rparr>], [])"
  by (simp add: market_create_stocks_def stock_count_def int_of_string_def is_ascii_def ascii_int_def int_max_str_digits_def
      py_strip_def is_space_def unsigned_value_def is_digit_def digit_val_def)

lemma one_page_prices:
  "market_create_prices [\<lparr>kod = PStr ''A'', kolichestvo = PStr ''5'', tsena = PStr ''100.00''\<rparr>]
     [''A''] =
     Inr [\<lparr>price_id = ''A'', price_of = \<lparr>price_amount = 100, currencyId = ''RUR''\<rparr>\<rparr>]"
  by (simp add: market_create_prices_def market_price_value_str int_max_str_digits_def price_conversion_str_def
      is_digit_def decimal_value_def digit_val_def)

lemma divide_one_chunk: "0 < n \<Longrightarrow> divide [x] n = Inr [[x]]"
proof -
  assume n: "0 < n"
  then have m: "0 < nat n" by simp
  have "py_range 0 1 (nat n) = 0 # py_range (nat n) 1 (nat n)"
    using m by (subst py_range.simps) simp
  also have "py_range (nat n) 1 (nat n) = []"
    using m by (simp add: py_range_empty)
  finally show ?thesis using n m by (simp add: divide_def)
qed

lemma dispatch_one_chunk:
  "0 < n \<Longrightarrow> dispatch send [x] n reqs =
     (case send [x] reqs of (Inl e, reqs') \<Rightarrow> (Inl e, reqs') | (Inr u, reqs') \<Rightarrow> (Inr (), reqs'))"
  by (simp add: dispatch_def divide_one_chunk split: prod.splits sum.splits)

lemma one_page_upload_prices:
  "upload_prices_body one_page_market
     [\<lparr>kod = PStr ''A'', kolichestvo = PStr ''5'', tsena = PStr ''100.00''\<rparr>] c reqs =
     Some (Inr [\<lparr>price_id = ''A'', price_of = \<lparr>price_amount = 100, currencyId = ''RUR''\<rparr>\<rparr>],
       reqs @ [OfferMappingEntries c [],
         PostPrices c [\<lparr>price_id = ''A'', price_of = \<lparr>price_amount = 100, currencyId = ''RUR''\<rparr>\<rparr>]])"
proof -
  have posts: "\<And>ps reqs. market_update_price one_page_market c ps reqs =
      (Inr (), reqs @ [PostPrices c ps])"
    by (simp add: market_update_price_def one_page_market_def)
  show ?thesis
    by (simp add: upload_prices_body_def one_page_offer_ids one_page_prices dispatch_one_chunk
        posts)
qed

text \<open>
  C9. For every run, the steps fetch catalog, reconcile stock, dispatch stock, reconcile
  price, dispatch price of each channel all run to completion in order, and what \<open>main\<close>
  does, the price requests included, is what plain sequential calls do. market.py \<open>main\<close>
  does not: it calls \<open>upload_prices\<close>, an \<open>async def\<close>, as a statement, so no price step
  runs and no price request is ever issued (\<open>market_main_requests\<close>). On a campaign with
  the one offer A and a feed with A at price 100.00, \<open>main\<close> issues four requests where the
  sequential orchestrator issues eight, two of them price updates.
\<close>

theorem market_main_drops_price_upload:
  "market_main one_page_market example_settings ''2024-01-01T00:00:00Z'' ''2024-01-01T00:00:01Z''
     (Inr [\<lparr>kod = PStr ''A'', kolichestvo = PStr ''5'', tsena = PStr ''100.00''\<rparr>]) =
     Some (Inr None,
       [OfferMappingEntries ''fbs'' [],
        PutStocks ''fbs'' [\<lparr>sku = ''A'', warehouseId = ''w1'',
          stock_items = [\<lparr>item_count = 5, item_type = ''FIT'', updatedAt = ''2024-01-01T00:00:00Z''\<rparr>]\<rparr>],
        OfferMappingEntries ''dbs'' [],
        PutStocks ''dbs'' [\<lparr>sku = ''A'', warehouseId = ''w2'',
          stock_items = [\<lparr>item_count = 5, item_type = ''FIT'', updatedAt = ''2024-01-01T00:00:01Z''\<rparr>]\<rparr>]]) \<and>
   sequential_main one_page_market example_settings ''2024-01-01T00:00:00Z'' ''2024-01-01T00:00:01Z''
     (Inr [\<lparr>kod = PStr ''A'', kolichestvo = PStr ''5'', tsena = PStr ''100.00''\<rparr>]) =
     Some (Inr None,
       [OfferMappingEntries ''fbs'' [],
        PutStocks ''fbs'' [\<lparr>sku = ''A'', warehouseId = ''w1'',
          stock_items = [\<lparr>item_count = 5, item_type = ''FIT'', updatedAt = ''2024-01-01T00:00:00Z''\<rparr>]\<rparr>],
        OfferMappingEntries ''fbs'' [],
        PostPrices ''fbs'' [\<lparr>price_id = ''A'', price_of = \<lparr>price_amount = 100, currencyId = ''RUR''\<rparr>\<rparr>],
        OfferMappingEntries ''dbs'' [],
        PutStocks ''dbs'' [\<lparr>sku = ''A'', warehouseId = ''w2'',
          stock_items = [\<lparr>item_count = 5, item_type = ''FIT'', updatedAt = ''2024-01-01T00:00:01Z''\<rparr>]\<rparr>],
        OfferMappingEntries ''dbs'' [],
        PostPrices ''dbs'' [\<lparr>price_id = ''A'', price_of = \<lparr>price_amount = 100, currencyId = ''RUR''\<rparr>\<rparr>]])"
proof -
  have puts: "\<And>c st reqs. market_update_stocks one_page_market c st reqs =
      (Inr (), reqs @ [PutStocks c st])"
    by (simp add: market_update_stocks_def one_page_market_def)
  show ?thesis
    by (simp add: market_main_def market_main_try_def sequential_main_def sequential_main_try_def
        example_settings_def one_page_offer_ids one_page_stocks dispatch_one_chunk puts
        upload_prices_def one_page_upload_prices)
qed


end
